theory Spec2Isabelle
  imports Complex_Main
begin

section \<open>JavaScript values\<close>

text \<open>
  The quiz generator is one React component (\<^verbatim>\<open>App\<close>) that exists in two revisions:
  the file with a question count and a CSV export (called the current revision below),
  and \<^verbatim>\<open>src/App.jsx\<close> (the earlier revision: images only, fixed instruction text,
  one export format). The retry loop, the response decoding, the scoring and the state
  resets are the same text in both; the prompt and the export differ and are modelled
  twice.

  The component handles untyped data: the service's answer goes through
  \<^verbatim>\<open>JSON.parse\<close> and is stored as it comes. Values are therefore modelled as
  JavaScript values: the primitives, arrays, and objects as \<^verbatim>\<open>JSON.parse\<close> builds
  them (own data properties only, no functions).

  A number of the model is a safe integer, one of magnitude at most \<open>2 ^ 53 - 1\<close>:
  these are doubles, and they print in decimal. Fractions, \<^verbatim>\<open>NaN\<close> and larger
  numbers are not values of the model. A string is kept as the UTF-8 bytes of its text,
  which is what a request body and an exported file hold.
\<close>

typedef safe_int = "{n :: int. \<bar>n\<bar> \<le> 9007199254740991}"
  morphisms int_of num
  by (rule exI [of _ 0]) simp

datatype jsval =
    JUndefined
  | JNull
  | JBool bool
  | JNum safe_int
  | JStr string
  | JArr "jsval list"
  | JObj "(string \<times> jsval) list"

text \<open>What a \<^verbatim>\<open>throw\<close> or a rejected promise carries.\<close>

datatype exn = TypeError | SyntaxError | Error string | ReadError

definition and_then :: "exn + 'a \<Rightarrow> ('a \<Rightarrow> exn + 'b) \<Rightarrow> exn + 'b" where
  "and_then r f = (case r of Inl e \<Rightarrow> Inl e | Inr v \<Rightarrow> f v)"

text \<open>Truthiness, as \<^verbatim>\<open>||\<close> and \<^verbatim>\<open>!\<close> read it.\<close>

fun truthy :: "jsval \<Rightarrow> bool" where
  "truthy JUndefined = False"
| "truthy JNull = False"
| "truthy (JBool b) = b"
| "truthy (JNum n) = (int_of n \<noteq> 0)"
| "truthy (JStr s) = (s \<noteq> [])"
| "truthy (JArr xs) = True"
| "truthy (JObj kvs) = True"

definition digit_char :: "nat \<Rightarrow> char" where
  "digit_char d = ''0123456789'' ! d"

fun show_nat :: "nat \<Rightarrow> string" where
  "show_nat n =
     (if n < 10 then [digit_char n] else show_nat (n div 10) @ [digit_char (n mod 10)])"

declare show_nat.simps [simp del]

fun join_with :: "string \<Rightarrow> string list \<Rightarrow> string" where
  "join_with sep [] = []"
| "join_with sep [x] = x"
| "join_with sep (x # y # ys) = x @ sep @ join_with sep (y # ys)"

text \<open>
  \<^verbatim>\<open>ToString\<close>, which a template literal applies to each \<^verbatim>\<open>${...}\<close>. A safe
  integer prints in decimal. An array joins its elements with commas, \<^verbatim>\<open>null\<close> and
  \<^verbatim>\<open>undefined\<close> elements as empty strings. An object prints through the
  \<^verbatim>\<open>toString\<close> it inherits, unless it has a property of that name of its own: that
  one is data, not a function, and the conversion throws a TypeError.
\<close>

fun to_string :: "jsval \<Rightarrow> exn + string" where
  "to_string JUndefined = Inr ''undefined''"
| "to_string JNull = Inr ''null''"
| "to_string (JBool b) = Inr (if b then ''true'' else ''false'')"
| "to_string (JNum n) =
     Inr (if int_of n < 0 then ''-'' @ show_nat (nat (- int_of n)) else show_nat (nat (int_of n)))"
| "to_string (JStr s) = Inr s"
| "to_string (JArr xs) =
     (let rs = map (\<lambda>x. if x = JUndefined \<or> x = JNull then Inr [] else to_string x) xs
      in if list_ex isl rs then Inl TypeError else Inr (join_with '','' (map projr rs)))"
| "to_string (JObj kvs) =
     (if ''toString'' \<in> set (map fst kvs) then Inl TypeError else Inr ''[object Object]'')"

text \<open>
  Property reads \<^verbatim>\<open>v.k\<close> and \<^verbatim>\<open>v[i]\<close>. Reading from \<^verbatim>\<open>undefined\<close> or
  \<^verbatim>\<open>null\<close> throws a TypeError; a property that is not there reads as
  \<^verbatim>\<open>undefined\<close>. The names the component reads (candidates, content, parts, text,
  questions, questionText, options, correctAnswer, solution) are on no prototype, so
  only an object's own entries can answer them.
\<close>

fun get_prop :: "jsval \<Rightarrow> string \<Rightarrow> exn + jsval" where
  "get_prop JUndefined k = Inl TypeError"
| "get_prop JNull k = Inl TypeError"
| "get_prop (JObj kvs) k = Inr (case map_of kvs k of None \<Rightarrow> JUndefined | Some v \<Rightarrow> v)"
| "get_prop (JBool b) k = Inr JUndefined"
| "get_prop (JNum n) k = Inr JUndefined"
| "get_prop (JStr s) k = Inr JUndefined"
| "get_prop (JArr xs) k = Inr JUndefined"

fun get_index :: "jsval \<Rightarrow> nat \<Rightarrow> exn + jsval" where
  "get_index JUndefined i = Inl TypeError"
| "get_index JNull i = Inl TypeError"
| "get_index (JArr xs) i = Inr (if i < length xs then xs ! i else JUndefined)"
| "get_index (JStr s) i = Inr (if i < length s then JStr [s ! i] else JUndefined)"
| "get_index (JObj kvs) i =
     Inr (case map_of kvs (show_nat i) of None \<Rightarrow> JUndefined | Some v \<Rightarrow> v)"
| "get_index (JBool b) i = Inr JUndefined"
| "get_index (JNum n) i = Inr JUndefined"

text \<open>
  The numbers the scoring computes are doubles. A finite one is kept as the rational it
  is exactly; the two operations of the scoring, a quotient of two counts and a product
  with 100, are rounded as IEEE 754 rounds them: to the nearest double, a tie to the
  even significand. A positive double is written \<open>(m, e)\<close> for \<open>m * 2 ^ e\<close>. The
  counts are lengths of arrays, below \<open>2 ^ 32\<close>, so nothing overflows or is subnormal.
\<close>

datatype js_number = NaN | Infinity | Num rat

text \<open>The number of binary digits of \<open>n\<close>.\<close>

fun bit_length :: "nat \<Rightarrow> nat" where
  "bit_length n = (if n = 0 then 0 else Suc (bit_length (n div 2)))"

declare bit_length.simps [simp del]

definition pow2 :: "int \<Rightarrow> rat" where
  "pow2 k = (if 0 \<le> k then 2 ^ nat k else 1 / 2 ^ nat (- k))"

text \<open>The exponent \<open>k\<close> with \<open>2 ^ k \<le> a / b < 2 ^ (k + 1)\<close>, for positive \<open>a\<close> and \<open>b\<close>.\<close>

definition binade :: "nat \<Rightarrow> nat \<Rightarrow> int" where
  "binade a b =
     (let k = int (bit_length a) - int (bit_length b)
      in if (if 0 \<le> k then 2 ^ nat k * b \<le> a else b \<le> a * 2 ^ nat (- k)) then k else k - 1)"

text \<open>The integer nearest to \<open>n / d\<close>, the even one of two that are equally near.\<close>

definition round_half_even :: "nat \<Rightarrow> nat \<Rightarrow> nat" where
  "round_half_even n d =
     (let q = n div d; r = n mod d
      in if 2 * r < d then q else if d < 2 * r then q + 1 else if even q then q else q + 1)"

type_synonym double = "nat \<times> int"

definition double_value :: "double \<Rightarrow> rat" where
  "double_value x = of_nat (fst x) * pow2 (snd x)"

text \<open>The double nearest to \<open>a / b\<close>: a significand of 53 binary digits.\<close>

definition nearest_double :: "nat \<Rightarrow> nat \<Rightarrow> double" where
  "nearest_double a b =
     (let e = binade a b - 52
      in if 0 \<le> e then (round_half_even a (b * 2 ^ nat e), e)
         else (round_half_even (a * 2 ^ nat (- e)) b, e))"

text \<open>\<^verbatim>\<open>a / b\<close> for two positive counts, and \<^verbatim>\<open>x * k\<close> for a positive double.\<close>

definition js_divide :: "nat \<Rightarrow> nat \<Rightarrow> double" where
  "js_divide a b = nearest_double a b"

definition js_multiply :: "double \<Rightarrow> nat \<Rightarrow> double" where
  "js_multiply x k =
     (if 0 \<le> snd x then nearest_double (fst x * k * 2 ^ nat (snd x)) 1
      else nearest_double (fst x * k) (2 ^ nat (- snd x)))"

text \<open>
  \<^verbatim>\<open>(correctCount / totalQuestions) * 100\<close>: \<^verbatim>\<open>0 / 0\<close> is \<^verbatim>\<open>NaN\<close> and stays
  so, a zero count gives 0.
\<close>

definition percentage :: "nat \<Rightarrow> nat \<Rightarrow> js_number" where
  "percentage c t =
     (if t = 0 then (if c = 0 then NaN else Infinity)
      else if c = 0 then Num 0
      else Num (double_value (js_multiply (js_divide c t) 100)))"

text \<open>
  \<^verbatim>\<open>String.fromCharCode(n)\<close> is the one code unit \<open>n mod 2 ^ 16\<close>; here, its UTF-8
  bytes. A surrogate that stands alone, as one between the spaces and the full stop of
  an option's line does, is written to a file as U+FFFD.
\<close>

definition utf8 :: "nat \<Rightarrow> string" where
  "utf8 u =
     (if u < 128 then [char_of u]
      else if u < 2048 then [char_of (192 + u div 64), char_of (128 + u mod 64)]
      else [char_of (224 + u div 4096), char_of (128 + u div 64 mod 64),
            char_of (128 + u mod 64)])"

definition fromCharCode :: "nat \<Rightarrow> string" where
  "fromCharCode n =
     (let u = n mod 65536 in if 55296 \<le> u \<and> u < 57344 then utf8 65533 else utf8 u)"

text \<open>\<^verbatim>\<open>s.split(c)\<close> for a one-character separator.\<close>

fun split_on :: "char \<Rightarrow> string \<Rightarrow> string list" where
  "split_on c [] = [[]]"
| "split_on c (x # xs) =
     (if x = c then [] # split_on c xs
      else (case split_on c xs of [] \<Rightarrow> [[x]] | w # ws \<Rightarrow> (x # w) # ws))"

section \<open>The session state and the world outside the component\<close>

record uploaded_file =
  file_name :: string
  file_type :: string
  file_body :: string

record score_result =
  score :: nat
  accuracy :: js_number
  totalQuestions :: nat

text \<open>The five \<^verbatim>\<open>useState\<close> cells.\<close>

record session =
  loading :: bool
  questions :: jsval
  answers :: "nat \<rightharpoonup> string"
  results :: "score_result option"
  error :: "string option"

definition initial_session :: session where
  "initial_session =
     \<lparr>loading = False, questions = JNull, answers = Map.empty, results = None, error = None\<rparr>"

datatype part = TextPart string | InlineData string jsval

record payload =
  role :: string
  parts :: "part list"
  responseMimeType :: string
  responseSchema :: jsval

record response =
  ok :: bool
  json :: "jsval option"

datatype fetch_outcome = NetworkError | Responded response

text \<open>
  What the browser provides: \<^verbatim>\<open>FileReader.readAsDataURL\<close> (\<open>None\<close> when the read
  fails), \<^verbatim>\<open>fetch\<close> (the outcome of the k-th call of one submission, counted from 0;
  a response's \<open>json\<close> is \<open>None\<close> when its body does not decode), and
  \<^verbatim>\<open>JSON.parse\<close> (\<open>None\<close> when it throws a SyntaxError; it converts its argument to
  a string itself).
\<close>

record runtime =
  readAsDataURL :: "uploaded_file \<Rightarrow> string option"
  fetch :: "nat \<Rightarrow> fetch_outcome"
  JSON_parse :: "jsval \<Rightarrow> jsval option"

text \<open>
  Everything \<^verbatim>\<open>onSubmit\<close> does, in the order it does it: calls of the state setters,
  file reads, requests, waits and the log line of the \<^verbatim>\<open>catch\<close>.
\<close>

datatype event =
    SetLoading bool
  | SetQuestions jsval
  | SetResults "score_result option"
  | SetError "string option"
  | SetAnswers "nat \<rightharpoonup> string"
  | ReadFile uploaded_file
  | FetchCall payload
  | Timeout nat
  | ConsoleError exn

fun apply_event :: "session \<Rightarrow> event \<Rightarrow> session" where
  "apply_event s (SetLoading b) = s\<lparr>loading := b\<rparr>"
| "apply_event s (SetQuestions q) = s\<lparr>questions := q\<rparr>"
| "apply_event s (SetResults r) = s\<lparr>results := r\<rparr>"
| "apply_event s (SetError e) = s\<lparr>error := e\<rparr>"
| "apply_event s (SetAnswers a) = s\<lparr>answers := a\<rparr>"
| "apply_event s (ReadFile f) = s"
| "apply_event s (FetchCall p) = s"
| "apply_event s (Timeout n) = s"
| "apply_event s (ConsoleError e) = s"

definition run :: "session \<Rightarrow> event list \<Rightarrow> session" where
  "run s evs = foldl apply_event s evs"

fun is_io :: "event \<Rightarrow> bool" where
  "is_io (ReadFile f) = True"
| "is_io (FetchCall p) = True"
| "is_io (Timeout n) = True"
| "is_io e = False"

fun is_fetch :: "event \<Rightarrow> bool" where
  "is_fetch (FetchCall p) = True"
| "is_fetch e = False"

fun timeouts :: "event list \<Rightarrow> nat list" where
  "timeouts [] = []"
| "timeouts (Timeout n # evs) = n # timeouts evs"
| "timeouts (e # evs) = timeouts evs"

section \<open>Encoding the files\<close>

definition fileToBase64 :: "(uploaded_file \<Rightarrow> string option) \<Rightarrow> uploaded_file \<Rightarrow> exn + jsval" where
  "fileToBase64 reader file =
     (case reader file of
        None \<Rightarrow> Inl ReadError
      | Some url \<Rightarrow>
          (let pieces = split_on CHR '','' url
           in Inr (if 1 < length pieces then JStr (pieces ! 1) else JUndefined)))"

text \<open>
  The loop \<^verbatim>\<open>for (const file of files)\<close>: \<open>ps\<close> is the array \<^verbatim>\<open>parts\<close>,
  \<open>evs\<close> the events so far. A failed read leaves the loop with the error.
\<close>

fun encode_files ::
  "(uploaded_file \<Rightarrow> string option) \<Rightarrow> event list \<Rightarrow> part list \<Rightarrow> uploaded_file list
     \<Rightarrow> event list \<times> (exn + part list)" where
  "encode_files reader evs ps [] = (evs, Inr ps)"
| "encode_files reader evs ps (file # rest) =
     (case fileToBase64 reader file of
        Inl e \<Rightarrow> (evs @ [ReadFile file], Inl e)
      | Inr base64Data \<Rightarrow>
          encode_files reader (evs @ [ReadFile file])
            (ps @ [InlineData (file_type file) base64Data]) rest)"

section \<open>The request\<close>

definition instruction_text :: "string \<Rightarrow> string" where
  "instruction_text n =
     ''\<newline>          From the following files, generate '' @ n @
     '' NEET-level multiple-choice questions.\<newline>          For each question, provide 4 options (A, B, C, D) and a single correct answer.\<newline>          Make sure there is exactly the amount of questions as specified above.\<newline>          Also, provide a detailed solution/explanation for the correct answer.\<newline>\<newline>          The questions must strictly adhere to the NEET syllabus (Physics, Chemistry, Biology).\<newline>          The questions should be challenging and cover key concepts from the provided content.\<newline>\<newline>          The response must be in a specific JSON format to be parsed correctly.\<newline>          Do not include any other text or markdown outside of the JSON.\<newline>          ''"

definition instruction_text_App :: string where
  "instruction_text_App =
     ''\<newline>          From the following images, generate 10-20 NEET-level multiple-choice questions.\<newline>          For each question, provide 4 options (A, B, C, D) and a single correct answer.\<newline>          Also, provide a detailed solution/explanation for the correct answer.\<newline>          \<newline>          The questions must strictly adhere to the NEET syllabus (Physics, Chemistry, Biology).\<newline>          The questions should be challenging and cover key concepts from the images.\<newline>          \<newline>          The response must be in a specific JSON format to be parsed correctly.\<newline>          Do not include any other text or markdown outside of the JSON.\<newline>          ''"

definition schema_string :: jsval where
  "schema_string = JObj [(''type'', JStr ''STRING'')]"

definition response_schema :: jsval where
  "response_schema =
     JObj [(''type'', JStr ''OBJECT''),
           (''properties'', JObj [(''questions'',
              JObj [(''type'', JStr ''ARRAY''),
                    (''items'',
                       JObj [(''type'', JStr ''OBJECT''),
                             (''properties'',
                                JObj [(''questionText'', schema_string),
                                      (''options'', JObj [(''type'', JStr ''ARRAY''),
                                                          (''items'', schema_string)]),
                                      (''correctAnswer'', schema_string),
                                      (''solution'', schema_string)])])])])]"

definition make_payload :: "part list \<Rightarrow> payload" where
  "make_payload ps =
     \<lparr>role = ''user'', parts = ps, responseMimeType = ''application/json'',
      responseSchema = response_schema\<rparr>"

section \<open>The request loop\<close>

definition MAX_RETRIES :: nat where
  "MAX_RETRIES = 5"

text \<open>
  The \<^verbatim>\<open>while (retries < MAX_RETRIES)\<close> loop. Its state is \<^verbatim>\<open>response\<close> and
  \<^verbatim>\<open>retries\<close>; each pass makes one call of \<^verbatim>\<open>fetch\<close>, so the call made when
  \<^verbatim>\<open>retries\<close> is \<open>k\<close> is call number \<open>k\<close>. A call that throws leaves
  \<^verbatim>\<open>response\<close> as it was; a response that is not \<^verbatim>\<open>ok\<close> is kept in it. Every
  failed pass ends with \<^verbatim>\<open>retries++\<close> and a wait of \<open>2 ^ retries * 100\<close>.
\<close>

function fetch_loop ::
  "(nat \<Rightarrow> fetch_outcome) \<Rightarrow> payload \<Rightarrow> event list \<Rightarrow> response option \<Rightarrow> nat
     \<Rightarrow> event list \<times> response option" where
  "fetch_loop fetcher p evs resp retries =
     (if retries < MAX_RETRIES then
        (case fetcher retries of
           NetworkError \<Rightarrow>
             fetch_loop fetcher p
               (evs @ [FetchCall p, Timeout (2 ^ (retries + 1) * 100)]) resp (retries + 1)
         | Responded r \<Rightarrow>
             if ok r then (evs @ [FetchCall p], Some r)
             else fetch_loop fetcher p
               (evs @ [FetchCall p, Timeout (2 ^ (retries + 1) * 100)]) (Some r) (retries + 1))
      else (evs, resp))"
  by pat_completeness auto
termination
  by (relation "measure (\<lambda>(fetcher, p, evs, resp, retries). MAX_RETRIES - retries)") auto

declare fetch_loop.simps [simp del]

text \<open>
  The loop and the check after it:
  \<^verbatim>\<open>if (!response || !response.ok) throw new Error(...)\<close>.
\<close>

definition request_with_retries ::
  "(nat \<Rightarrow> fetch_outcome) \<Rightarrow> payload \<Rightarrow> event list \<times> (exn + response)" where
  "request_with_retries fetcher p =
     (case fetch_loop fetcher p [] None 0 of
        (evs, None) \<Rightarrow> (evs, Inl (Error ''API call failed after multiple retries.''))
      | (evs, Some r) \<Rightarrow>
          if \<not> ok r then (evs, Inl (Error ''API call failed after multiple retries.''))
          else (evs, Inr r))"

definition failed :: "fetch_outcome \<Rightarrow> bool" where
  "failed outcome = (case outcome of NetworkError \<Rightarrow> True | Responded r \<Rightarrow> \<not> ok r)"

section \<open>Decoding the response\<close>

text \<open>\<^verbatim>\<open>result.candidates[0].content.parts[0].text\<close>\<close>

definition extract_text :: "jsval \<Rightarrow> exn + jsval" where
  "extract_text result =
     and_then (get_prop result ''candidates'') (\<lambda>candidates.
     and_then (get_index candidates 0) (\<lambda>candidate.
     and_then (get_prop candidate ''content'') (\<lambda>content.
     and_then (get_prop content ''parts'') (\<lambda>ps.
     and_then (get_index ps 0) (\<lambda>p0.
     get_prop p0 ''text'')))))"

text \<open>
  From \<^verbatim>\<open>await response.json()\<close> to the value handed to \<^verbatim>\<open>setQuestions\<close>:
  \<^verbatim>\<open>parsedData.questions\<close>, whatever it is.
\<close>

definition decode_response :: "(jsval \<Rightarrow> jsval option) \<Rightarrow> response \<Rightarrow> exn + jsval" where
  "decode_response parser r =
     (case json r of
        None \<Rightarrow> Inl SyntaxError
      | Some result \<Rightarrow>
          and_then (extract_text result) (\<lambda>jsonString.
            case parser jsonString of
              None \<Rightarrow> Inl SyntaxError
            | Some parsedData \<Rightarrow> get_prop parsedData ''questions''))"

section \<open>Submitting the form\<close>

record form_data =
  files :: "uploaded_file list"
  numQuestions :: jsval

record form_data_App =
  images :: "uploaded_file list"

text \<open>
  The body of the \<^verbatim>\<open>try\<close> block of the current revision: the events it causes and
  either the exception that leaves it or the value it hands to \<^verbatim>\<open>setQuestions\<close>.
  The template literal of the text part converts the count to a string, which throws for
  a value that has no string conversion.
\<close>

definition generate :: "runtime \<Rightarrow> form_data \<Rightarrow> event list \<times> (exn + jsval)" where
  "generate rt data =
     (let count = (if truthy (numQuestions data) then numQuestions data else JNum (num 10)) in
      if length (files data) = 0 then ([], Inl (Error ''Please upload at least one file.''))
      else
        (case to_string count of
           Inl e \<Rightarrow> ([], Inl e)
         | Inr n \<Rightarrow>
             (case encode_files (readAsDataURL rt) [] [TextPart (instruction_text n)]
                     (files data) of
                (evs1, Inl e) \<Rightarrow> (evs1, Inl e)
              | (evs1, Inr ps) \<Rightarrow>
                  (case request_with_retries (fetch rt) (make_payload ps) of
                     (evs2, Inl e) \<Rightarrow> (evs1 @ evs2, Inl e)
                   | (evs2, Inr r) \<Rightarrow> (evs1 @ evs2, decode_response (JSON_parse rt) r)))))"

definition resets :: "event list" where
  "resets =
     [SetLoading True, SetQuestions JNull, SetResults None, SetError None, SetAnswers Map.empty]"

definition failure_message :: string where
  "failure_message =
     ''Failed to generate questions. Please try again. Ensure files contain relevant text/images.''"

definition onSubmit :: "runtime \<Rightarrow> form_data \<Rightarrow> event list" where
  "onSubmit rt data =
     resets @
     (case generate rt data of
        (evs, Inl e) \<Rightarrow> evs @ [ConsoleError e, SetError (Some failure_message), SetLoading False]
      | (evs, Inr q) \<Rightarrow> evs @ [SetQuestions q, SetLoading False])"

text \<open>The same for \<^verbatim>\<open>src/App.jsx\<close>.\<close>

definition generate_App :: "runtime \<Rightarrow> form_data_App \<Rightarrow> event list \<times> (exn + jsval)" where
  "generate_App rt data =
     (if length (images data) = 0 then ([], Inl (Error ''Please upload at least one image.''))
      else
        (case encode_files (readAsDataURL rt) [] [TextPart instruction_text_App] (images data) of
           (evs1, Inl e) \<Rightarrow> (evs1, Inl e)
         | (evs1, Inr ps) \<Rightarrow>
             (case request_with_retries (fetch rt) (make_payload ps) of
                (evs2, Inl e) \<Rightarrow> (evs1 @ evs2, Inl e)
              | (evs2, Inr r) \<Rightarrow> (evs1 @ evs2, decode_response (JSON_parse rt) r))))"

definition failure_message_App :: string where
  "failure_message_App =
     ''Failed to generate questions. Please try again with different content.''"

definition onSubmit_App :: "runtime \<Rightarrow> form_data_App \<Rightarrow> event list" where
  "onSubmit_App rt data =
     resets @
     (case generate_App rt data of
        (evs, Inl e) \<Rightarrow>
          evs @ [ConsoleError e, SetError (Some failure_message_App), SetLoading False]
      | (evs, Inr q) \<Rightarrow> evs @ [SetQuestions q, SetLoading False])"

section \<open>Answering and scoring\<close>

definition handleAnswerSelect :: "session \<Rightarrow> nat \<Rightarrow> string \<Rightarrow> session" where
  "handleAnswerSelect s questionIndex selectedOption =
     s\<lparr>answers := (answers s)(questionIndex \<mapsto> selectedOption)\<rparr>"

text \<open>
  \<^verbatim>\<open>answers[index] === question.correctAnswer\<close>, where the left side is a stored
  string or \<^verbatim>\<open>undefined\<close>: strict equality holds between two equal strings and
  between \<^verbatim>\<open>undefined\<close> and \<^verbatim>\<open>undefined\<close>, and in no other case.
\<close>

fun strict_eq :: "string option \<Rightarrow> jsval \<Rightarrow> bool" where
  "strict_eq None v = (v = JUndefined)"
| "strict_eq (Some a) v = (v = JStr a)"

text \<open>The \<^verbatim>\<open>questions.forEach\<close> of \<^verbatim>\<open>calculateResults\<close>.\<close>

fun count_correct :: "(nat \<rightharpoonup> string) \<Rightarrow> nat \<Rightarrow> nat \<Rightarrow> jsval list \<Rightarrow> exn + nat" where
  "count_correct ans correctCount index [] = Inr correctCount"
| "count_correct ans correctCount index (question # rest) =
     (case get_prop question ''correctAnswer'' of
        Inl e \<Rightarrow> Inl e
      | Inr correct \<Rightarrow>
          count_correct ans
            (if strict_eq (ans index) correct then correctCount + 1 else correctCount)
            (index + 1) rest)"

definition calculateResults :: "session \<Rightarrow> exn + session" where
  "calculateResults s =
     (case questions s of
        JArr qs \<Rightarrow>
          (case count_correct (answers s) 0 0 qs of
             Inl e \<Rightarrow> Inl e
           | Inr correctCount \<Rightarrow>
               Inr (s\<lparr>results :=
                      Some \<lparr>score = correctCount,
                            accuracy = percentage correctCount (length qs),
                            totalQuestions = length qs\<rparr>\<rparr>))
      | _ \<Rightarrow> Inl TypeError)"

section \<open>Exporting\<close>

record export_file =
  content :: string
  filename :: string
  mimeType :: string

text \<open>\<^verbatim>\<open>s.replace(/"/g, '""')\<close>\<close>

definition double_quotes :: "string \<Rightarrow> string" where
  "double_quotes s = concat (map (\<lambda>c. if c = CHR 0x22 then [c, c] else [c]) s)"

definition csv_field :: "jsval \<Rightarrow> exn + string" where
  "csv_field v =
     (case v of JStr s \<Rightarrow> Inr ([CHR 0x22] @ double_quotes s @ [CHR 0x22]) | _ \<Rightarrow> Inl TypeError)"

fun export_csv :: "string \<Rightarrow> jsval list \<Rightarrow> exn + string" where
  "export_csv exportContent [] = Inr exportContent"
| "export_csv exportContent (q # rest) =
     and_then (get_prop q ''questionText'') (\<lambda>qt.
     and_then (csv_field qt) (\<lambda>questionText.
     and_then (get_prop q ''correctAnswer'') (\<lambda>ca.
     and_then (csv_field ca) (\<lambda>correctAnswer.
     and_then (get_prop q ''solution'') (\<lambda>so.
     and_then (csv_field so) (\<lambda>solution.
       export_csv
         (exportContent @ questionText @ '','' @ correctAnswer @ '','' @ solution @ ''\<newline>'')
         rest))))))"

text \<open>
  The inner \<^verbatim>\<open>q.options.forEach\<close> of the text export. Every \<^verbatim>\<open>${...}\<close> of the
  export converts a value to a string and can throw.
\<close>

fun export_options :: "string \<Rightarrow> nat \<Rightarrow> jsval list \<Rightarrow> exn + string" where
  "export_options exportContent optIndex [] = Inr exportContent"
| "export_options exportContent optIndex (opt # rest) =
     and_then (to_string opt) (\<lambda>option_text.
       export_options
         (exportContent @ ''  '' @ fromCharCode (65 + optIndex) @ ''. '' @ option_text @ ''\<newline>'')
         (optIndex + 1) rest)"

fun export_txt :: "string \<Rightarrow> nat \<Rightarrow> jsval list \<Rightarrow> exn + string" where
  "export_txt exportContent index [] = Inr exportContent"
| "export_txt exportContent index (q # rest) =
     and_then (get_prop q ''questionText'') (\<lambda>qt.
     and_then (to_string qt) (\<lambda>question_text.
     and_then (get_prop q ''options'') (\<lambda>opts.
       case opts of
         JArr os \<Rightarrow>
           and_then
             (export_options
                (exportContent @ ''Question '' @ show_nat (index + 1) @ '': '' @ question_text
                   @ ''\<newline>'')
                0 os) (\<lambda>with_options.
           and_then (get_prop q ''correctAnswer'') (\<lambda>ca.
           and_then (to_string ca) (\<lambda>answer_text.
           and_then (get_prop q ''solution'') (\<lambda>so.
           and_then (to_string so) (\<lambda>solution_text.
             export_txt
               (with_options
                @ ''Correct Answer: '' @ answer_text @ ''\<newline>''
                @ ''Solution: '' @ solution_text @ ''\<newline>\<newline>'')
               (index + 1) rest)))))
       | _ \<Rightarrow> Inl TypeError)))"

text \<open>
  \<^verbatim>\<open>handleExport(format)\<close> of the current revision, up to the blob it hands to the
  browser: \<open>None\<close> is the early \<^verbatim>\<open>return\<close> when there are no questions.
\<close>

definition handleExport :: "string \<Rightarrow> jsval \<Rightarrow> exn + export_file option" where
  "handleExport format qv =
     (if \<not> truthy qv then Inr None
      else
        (case qv of
           JArr qs \<Rightarrow>
             if format = ''csv'' then
               and_then
                 (export_csv
                    ([CHR 0x22] @ ''Question'' @ [CHR 0x22] @ '','' @ [CHR 0x22] @ ''Correct Answer''
                       @ [CHR 0x22] @ '','' @ [CHR 0x22] @ ''Solution'' @ [CHR 0x22] @ ''\<newline>'')
                    qs)
                 (\<lambda>c. Inr (Some \<lparr>content = c, filename = ''neet_questions_and_solutions.csv'',
                                  mimeType = ''text/csv;charset=utf-8;''\<rparr>))
             else
               and_then (export_txt [] 0 qs)
                 (\<lambda>c. Inr (Some \<lparr>content = c, filename = ''neet_questions_and_solutions.txt'',
                                  mimeType = ''text/plain;charset=utf-8''\<rparr>))
         | _ \<Rightarrow> Inl TypeError))"

text \<open>
  \<^verbatim>\<open>handleExport()\<close> of \<^verbatim>\<open>src/App.jsx\<close>:
  \<^verbatim>\<open>questions.map(q => `${q.questionText}:${q.correctAnswer}:${q.solution}`).join('\n\n')\<close>.
\<close>

fun export_lines_App :: "jsval list \<Rightarrow> exn + string list" where
  "export_lines_App [] = Inr []"
| "export_lines_App (q # rest) =
     and_then (get_prop q ''questionText'') (\<lambda>qt.
     and_then (to_string qt) (\<lambda>question_text.
     and_then (get_prop q ''correctAnswer'') (\<lambda>ca.
     and_then (to_string ca) (\<lambda>answer_text.
     and_then (get_prop q ''solution'') (\<lambda>so.
     and_then (to_string so) (\<lambda>solution_text.
     and_then (export_lines_App rest) (\<lambda>ls.
       Inr ((question_text @ '':'' @ answer_text @ '':'' @ solution_text) # ls))))))))"

definition handleExport_App :: "jsval \<Rightarrow> exn + export_file option" where
  "handleExport_App qv =
     (if \<not> truthy qv then Inr None
      else
        (case qv of
           JArr qs \<Rightarrow>
             and_then (export_lines_App qs)
               (\<lambda>ls. Inr (Some \<lparr>content = join_with ''\<newline>\<newline>'' ls,
                                 filename = ''neet_questions_and_solutions.txt'',
                                 mimeType = ''text/plain;charset=utf-8''\<rparr>))
         | _ \<Rightarrow> Inl TypeError))"

section \<open>Notions used to state the properties\<close>

text \<open>
  The events of the passes \<open>n, ..., k - 1\<close> of the request loop when each of them fails:
  a call, then the wait that follows the \<open>(j + 1)\<close>-th failure.
\<close>

definition backoff_events :: "payload \<Rightarrow> nat \<Rightarrow> nat \<Rightarrow> event list" where
  "backoff_events p n k = concat (map (\<lambda>j. [FetchCall p, Timeout (2 ^ (j + 1) * 100)]) [n..<k])"

text \<open>What the check after the loop rejects.\<close>

definition unusable :: "response option \<Rightarrow> bool" where
  "unusable resp = (case resp of None \<Rightarrow> True | Some r \<Rightarrow> \<not> ok r)"

subsection \<open>Sample inputs\<close>

definition sample_payload :: payload where
  "sample_payload = make_payload [TextPart (instruction_text ''3'')]"

definition good_response :: response where
  "good_response = \<lparr>ok = True, json = Some JNull\<rparr>"

definition bad_response :: response where
  "bad_response = \<lparr>ok = False, json = None\<rparr>"

definition third_time_lucky :: "nat \<Rightarrow> fetch_outcome" where
  "third_time_lucky k =
     (if k = 0 then NetworkError else if k = 1 then Responded bad_response
      else Responded good_response)"

definition always_down :: "nat \<Rightarrow> fetch_outcome" where
  "always_down k = (if k = 3 then Responded bad_response else NetworkError)"

subsection \<open>Scoring\<close>

text \<open>A value whose properties can be read without a TypeError.\<close>

definition readable :: "jsval \<Rightarrow> bool" where
  "readable v = (v \<noteq> JUndefined \<and> v \<noteq> JNull)"

text \<open>The property \<open>k\<close> of a readable value.\<close>

definition field :: "jsval \<Rightarrow> string \<Rightarrow> jsval" where
  "field v k = (case get_prop v k of Inl e \<Rightarrow> JUndefined | Inr x \<Rightarrow> x)"

text \<open>The indices at which the stored answer is strictly equal to the correct answer.\<close>

definition correct_indices :: "(nat \<rightharpoonup> string) \<Rightarrow> jsval list \<Rightarrow> nat list" where
  "correct_indices ans qs =
     filter (\<lambda>i. strict_eq (ans i) (field (qs ! i) ''correctAnswer'')) [0..<length qs]"

text \<open>
  Equality of strings, as the specification has it: there is a stored answer, the
  correct answer is a string, and the two are the same string.
\<close>

fun string_equal :: "string option \<Rightarrow> jsval \<Rightarrow> bool" where
  "string_equal None v = False"
| "string_equal (Some a) v = (v = JStr a)"

definition matching_indices :: "(nat \<rightharpoonup> string) \<Rightarrow> jsval list \<Rightarrow> nat list" where
  "matching_indices ans qs =
     filter (\<lambda>i. string_equal (ans i) (field (qs ! i) ''correctAnswer'')) [0..<length qs]"

text \<open>No index is both without a stored answer and without a correct answer.\<close>

definition no_blank_pair :: "(nat \<rightharpoonup> string) \<Rightarrow> jsval list \<Rightarrow> bool" where
  "no_blank_pair ans qs =
     list_all (\<lambda>i. ans i \<noteq> None \<or> field (qs ! i) ''correctAnswer'' \<noteq> JUndefined)
       [0..<length qs]"

definition sample_question :: "string \<Rightarrow> string \<Rightarrow> jsval" where
  "sample_question t c =
     JObj [(''questionText'', JStr t),
           (''options'', JArr [JStr ''a'', JStr ''b'', JStr ''c'', JStr ''d'']),
           (''correctAnswer'', JStr c),
           (''solution'', JStr ''S'')]"

definition sample_quiz :: session where
  "sample_quiz =
     initial_session
       \<lparr>questions := JArr [sample_question ''Q1'' ''A'', sample_question ''Q2'' ''B'',
                          sample_question ''Q3'' ''C''],
        answers := [0 \<mapsto> ''A'', 1 \<mapsto> ''X'', 2 \<mapsto> ''C'']\<rparr>"

definition question_without_answer :: jsval where
  "question_without_answer =
     JObj [(''questionText'', JStr ''Q1''),
           (''options'', JArr [JStr ''a'', JStr ''b'', JStr ''c'', JStr ''d'']),
           (''solution'', JStr ''S'')]"

text \<open>A quiz of one such question, not answered.\<close>

definition blank_quiz :: session where
  "blank_quiz = initial_session\<lparr>questions := JArr [question_without_answer]\<rparr>"

text \<open>A quiz of 25 questions, the first 7 answered correctly, the others not answered.\<close>

definition quiz_7_of_25 :: session where
  "quiz_7_of_25 =
     initial_session
       \<lparr>questions := JArr (replicate 25 (sample_question ''Q'' ''A'')),
        answers := (\<lambda>i. if i < 7 then Some ''A'' else None)\<rparr>"

subsection \<open>Decoding\<close>

text \<open>The errors of a response that is not what the component expects.\<close>

definition malformed :: "exn \<Rightarrow> bool" where
  "malformed e = (e = TypeError \<or> e = SyntaxError)"

text \<open>A question record that lacks one of the four fields of the schema.\<close>

definition lacks_field :: "jsval \<Rightarrow> bool" where
  "lacks_field q =
     (field q ''questionText'' = JUndefined \<or> field q ''options'' = JUndefined \<or>
      field q ''correctAnswer'' = JUndefined \<or> field q ''solution'' = JUndefined)"

definition envelope :: "jsval \<Rightarrow> jsval" where
  "envelope t =
     JObj [(''candidates'',
            JArr [JObj [(''content'', JObj [(''parts'', JArr [JObj [(''text'', t)]])])]])]"

definition incomplete_text :: string where
  \<open>incomplete_text = ''{"questions":[{"questionText":"Q1"}]}''\<close>

definition incomplete_record :: jsval where
  "incomplete_record = JObj [(''questionText'', JStr ''Q1'')]"

text \<open>
  A stand-in for \<^verbatim>\<open>JSON.parse\<close> that agrees with it on \<open>incomplete_text\<close> and on
  \<^verbatim>\<open>undefined\<close> (which it reads as the text "undefined" and rejects), and rejects
  everything else.
\<close>

definition sample_JSON_parse :: "jsval \<Rightarrow> jsval option" where
  "sample_JSON_parse v =
     (if v = JStr incomplete_text then Some (JObj [(''questions'', JArr [incomplete_record])])
      else None)"

subsection \<open>Submitting\<close>

text \<open>The payloads of the requests among some events, in order.\<close>

fun requests :: "event list \<Rightarrow> payload list" where
  "requests [] = []"
| "requests (FetchCall p # evs) = p # requests evs"
| "requests (e # evs) = requests evs"

text \<open>The encoded attachment of a file that can be read.\<close>

definition attachment :: "(uploaded_file \<Rightarrow> string option) \<Rightarrow> uploaded_file \<Rightarrow> part" where
  "attachment reader file =
     InlineData (file_type file)
       (case fileToBase64 reader file of Inl e \<Rightarrow> JUndefined | Inr d \<Rightarrow> d)"

text \<open>
  The frame both revisions of \<^verbatim>\<open>onSubmit\<close> put around the \<^verbatim>\<open>try\<close> body: the
  resets before it, and after it either the \<^verbatim>\<open>catch\<close> or the two setters of the
  success path.
\<close>

definition finish :: "string \<Rightarrow> event list \<times> (exn + jsval) \<Rightarrow> event list" where
  "finish msg outcome =
     resets @
     (case outcome of
        (evs, Inl e) \<Rightarrow> evs @ [ConsoleError e, SetError (Some msg), SetLoading False]
      | (evs, Inr q) \<Rightarrow> evs @ [SetQuestions q, SetLoading False])"

text \<open>
  The sessions in which the handler lets go of the component: at each read, request or
  wait, where it awaits, and when it has run to its end. (The body of the response is
  awaited too, in the session of the request before it: no setter is called in between.)
\<close>

fun settled :: "session \<Rightarrow> event list \<Rightarrow> session list" where
  "settled s [] = [s]"
| "settled s (e # evs) =
     (if is_io e then s # settled s evs else settled (apply_event s e) evs)"

subsection \<open>Sample submissions\<close>

definition sample_image :: uploaded_file where
  "sample_image = \<lparr>file_name = ''notes.png'', file_type = ''image/png'', file_body = ''iVBORw0KGgo=''\<rparr>"

definition sample_pdf :: uploaded_file where
  "sample_pdf = \<lparr>file_name = ''chapter.pdf'', file_type = ''application/pdf'', file_body = ''JVBERi0xLjQ=''\<rparr>"

text \<open>A reader that answers the data URL of a file whose body is already base64 text.\<close>

definition data_url :: "uploaded_file \<Rightarrow> string option" where
  "data_url f = Some (''data:'' @ file_type f @ '';base64,'' @ file_body f)"

definition sample_runtime :: runtime where
  "sample_runtime =
     \<lparr>readAsDataURL = data_url,
      fetch = (\<lambda>k. Responded \<lparr>ok = True, json = Some (envelope (JStr incomplete_text))\<rparr>),
      JSON_parse = sample_JSON_parse\<rparr>"

definition down_runtime :: runtime where
  "down_runtime = \<lparr>readAsDataURL = data_url, fetch = always_down, JSON_parse = sample_JSON_parse\<rparr>"



definition sample_form :: "jsval \<Rightarrow> form_data" where
  "sample_form n = \<lparr>files = [sample_image, sample_pdf], numQuestions = n\<rparr>"

definition sample_form_App :: form_data_App where
  "sample_form_App = \<lparr>images = [sample_image, sample_pdf]\<rparr>"

definition empty_form :: form_data where
  "empty_form = \<lparr>files = [], numQuestions = JUndefined\<rparr>"

definition empty_form_App :: form_data_App where
  "empty_form_App = \<lparr>images = []\<rparr>"

definition sample_attachments :: "part list" where
  "sample_attachments =
     [InlineData ''image/png'' (JStr ''iVBORw0KGgo=''),
      InlineData ''application/pdf'' (JStr ''JVBERi0xLjQ='')]"

text \<open>A session that has been scored.\<close>

definition scored_quiz :: session where
  "scored_quiz =
     sample_quiz
       \<lparr>results := Some \<lparr>score = 2, accuracy = Num (2345624805922133 / 35184372088832),
                          totalQuestions = 3\<rparr>\<rparr>"

definition cleared :: "bool \<Rightarrow> string option \<Rightarrow> session" where
  "cleared l e =
     \<lparr>loading = l, questions = JNull, answers = Map.empty, results = None, error = e\<rparr>"

text \<open>The text of the prompt before and after the count.\<close>

definition prompt_before :: string where
  "prompt_before = ''\<newline>          From the following files, generate ''"

definition prompt_after :: string where
  "prompt_after =
     '' NEET-level multiple-choice questions.\<newline>          For each question, provide 4 options (A, B, C, D) and a single correct answer.\<newline>          Make sure there is exactly the amount of questions as specified above.\<newline>          Also, provide a detailed solution/explanation for the correct answer.\<newline>\<newline>          The questions must strictly adhere to the NEET syllabus (Physics, Chemistry, Biology).\<newline>          The questions should be challenging and cover key concepts from the provided content.\<newline>\<newline>          The response must be in a specific JSON format to be parsed correctly.\<newline>          Do not include any other text or markdown outside of the JSON.\<newline>          ''"


subsection \<open>Exporting\<close>

definition is_string :: "jsval \<Rightarrow> bool" where
  "is_string v = (case v of JStr s \<Rightarrow> True | _ \<Rightarrow> False)"

definition text_of :: "jsval \<Rightarrow> string" where
  "text_of v = (case v of JStr s \<Rightarrow> s | _ \<Rightarrow> [])"

text \<open>
  A question record whose text, correct answer and solution are strings, and one that
  also has an array of at most 26 strings as its options: a record of the
  specification's data model, which has 4 options.
\<close>

definition typed_fields :: "jsval \<Rightarrow> bool" where
  "typed_fields q =
     (readable q \<and> is_string (field q ''questionText'') \<and>
      is_string (field q ''correctAnswer'') \<and> is_string (field q ''solution''))"

definition typed_question :: "jsval \<Rightarrow> bool" where
  "typed_question q =
     (typed_fields q \<and>
      (case field q ''options'' of
         JArr os \<Rightarrow> list_all is_string os \<and> length os \<le> 26
       | _ \<Rightarrow> False))"

definition options_of :: "jsval \<Rightarrow> jsval list" where
  "options_of q = (case field q ''options'' of JArr os \<Rightarrow> os | _ \<Rightarrow> [])"

text \<open>The capital letters, in order.\<close>

definition capital_letters :: string where
  "capital_letters = ''ABCDEFGHIJKLMNOPQRSTUVWXYZ''"

text \<open>The line of option \<open>j\<close> and the block of question \<open>i\<close> (both counted from 0).\<close>

definition option_line :: "nat \<Rightarrow> string \<Rightarrow> string" where
  "option_line j opt = ''  '' @ [capital_letters ! j] @ ''. '' @ opt @ ''\<newline>''"

definition question_block :: "nat \<Rightarrow> jsval \<Rightarrow> string" where
  "question_block i q =
     ''Question '' @ show_nat (i + 1) @ '': '' @ text_of (field q ''questionText'') @ ''\<newline>''
     @ concat (map (\<lambda>j. option_line j (text_of (options_of q ! j)))
                 [0..<length (options_of q)])
     @ ''Correct Answer: '' @ text_of (field q ''correctAnswer'') @ ''\<newline>''
     @ ''Solution: '' @ text_of (field q ''solution'') @ ''\<newline>\<newline>''"

text \<open>The line of a question in the export of \<^verbatim>\<open>src/App.jsx\<close>.\<close>

definition question_line_App :: "jsval \<Rightarrow> string" where
  "question_line_App q =
     text_of (field q ''questionText'') @ '':'' @ text_of (field q ''correctAnswer'')
     @ '':'' @ text_of (field q ''solution'')"

definition two_questions :: "jsval list" where
  "two_questions = [sample_question ''Q1'' ''A'', sample_question ''Q2'' ''B'']"

definition text_file :: "string \<Rightarrow> export_file" where
  "text_file c =
     \<lparr>content = c, filename = ''neet_questions_and_solutions.txt'',
      mimeType = ''text/plain;charset=utf-8''\<rparr>"

section \<open>Properties\<close>

lemma and_then_Inr [simp]: "and_then (Inr v) f = f v"
  by (simp add: and_then_def)

lemma and_then_Inl [simp]: "and_then (Inl e) f = Inl e"
  by (simp add: and_then_def)

subsection \<open>The transport client\<close>

lemma backoff_events_step:
  "n < k \<Longrightarrow> backoff_events p n k = [FetchCall p, Timeout (2 ^ (n + 1) * 100)] @ backoff_events p (Suc n) k"
  by (simp add: backoff_events_def upt_conv_Cons)

lemma backoff_events_empty [simp]: "backoff_events p n n = []"
  by (simp add: backoff_events_def)

lemma fetch_loop_success:
  assumes "\<forall>j. n \<le> j \<and> j < k \<longrightarrow> failed (fetcher j)"
    and "fetcher k = Responded r" and "ok r" and "n \<le> k" and "k < MAX_RETRIES"
  shows "fetch_loop fetcher p evs resp n = (evs @ backoff_events p n k @ [FetchCall p], Some r)"
  using assms
proof (induction "k - n" arbitrary: n evs resp)
  case 0
  then have "n = k" by simp
  with 0 show ?case by (simp add: fetch_loop.simps [of fetcher p evs resp k])
next
  case (Suc d)
  then have lt: "n < k" and f: "failed (fetcher n)" by auto
  from lt Suc.prems have lim: "n < MAX_RETRIES" by simp
  have rest: "\<And>evs' resp'. fetch_loop fetcher p evs' resp' (Suc n)
      = (evs' @ backoff_events p (Suc n) k @ [FetchCall p], Some r)"
    using Suc.hyps(1) [of "Suc n"] Suc.hyps(2) Suc.prems lt by auto
  show ?case
  proof (cases "fetcher n")
    case NetworkError
    then show ?thesis
      using lim rest by (simp add: fetch_loop.simps [of fetcher p evs resp n] backoff_events_step [OF lt])
  next
    case (Responded r')
    with f have "\<not> ok r'" by (simp add: failed_def)
    with Responded show ?thesis
      using lim rest by (simp add: fetch_loop.simps [of fetcher p evs resp n] backoff_events_step [OF lt])
  qed
qed

lemma fetch_loop_exhausted:
  assumes "\<forall>j. n \<le> j \<and> j < MAX_RETRIES \<longrightarrow> failed (fetcher j)"
    and "unusable resp" and "n \<le> MAX_RETRIES"
  shows "\<exists>resp'. unusable resp' \<and>
     fetch_loop fetcher p evs resp n = (evs @ backoff_events p n MAX_RETRIES, resp')"
  using assms
proof (induction "MAX_RETRIES - n" arbitrary: n evs resp)
  case 0
  then have "n = MAX_RETRIES" by simp
  with 0 show ?case by (simp add: fetch_loop.simps [of fetcher p evs resp MAX_RETRIES])
next
  case (Suc d)
  then have lt: "n < MAX_RETRIES" and f: "failed (fetcher n)" by auto
  let ?evs = "evs @ [FetchCall p, Timeout (2 ^ (n + 1) * 100)]"
  have d: "d = MAX_RETRIES - Suc n" using Suc.hyps(2) by simp
  have later: "\<forall>j. Suc n \<le> j \<and> j < MAX_RETRIES \<longrightarrow> failed (fetcher j)"
    using Suc.prems(1) by auto
  have le: "Suc n \<le> MAX_RETRIES" using lt by simp
  have rest: "\<exists>resp''. unusable resp'' \<and>
      fetch_loop fetcher p ?evs resp' (Suc n) = (?evs @ backoff_events p (Suc n) MAX_RETRIES, resp'')"
    if "unusable resp'" for resp'
    by (rule Suc.hyps(1) [OF d later that le])
  show ?case
  proof (cases "fetcher n")
    case NetworkError
    from rest [OF Suc.prems(2)] obtain resp'' where u: "unusable resp''"
      and eq: "fetch_loop fetcher p ?evs resp (Suc n) = (?evs @ backoff_events p (Suc n) MAX_RETRIES, resp'')"
      by blast
    have "fetch_loop fetcher p evs resp n = fetch_loop fetcher p ?evs resp (Suc n)"
      using NetworkError lt by (simp add: fetch_loop.simps [of fetcher p evs resp n])
    with eq u show ?thesis
      by (simp add: backoff_events_step [OF lt])
  next
    case (Responded r')
    with f have bad: "\<not> ok r'" and "unusable (Some r')" by (simp_all add: failed_def unusable_def)
    from rest [OF this(2)] obtain resp'' where u: "unusable resp''"
      and eq: "fetch_loop fetcher p ?evs (Some r') (Suc n) = (?evs @ backoff_events p (Suc n) MAX_RETRIES, resp'')"
      by blast
    have "fetch_loop fetcher p evs resp n = fetch_loop fetcher p ?evs (Some r') (Suc n)"
      using Responded bad lt by (simp add: fetch_loop.simps [of fetcher p evs resp n])
    with eq u show ?thesis
      by (simp add: backoff_events_step [OF lt])
  qed
qed

lemma fetch_loop_calls:
  "length (filter is_fetch (fst (fetch_loop fetcher p evs resp n)))
     \<le> length (filter is_fetch evs) + (MAX_RETRIES - n)"
proof (induction fetcher p evs resp n rule: fetch_loop.induct)
  case (1 fetcher p evs resp retries)
  show ?case
  proof (cases "retries < MAX_RETRIES")
    case False
    then show ?thesis by (simp add: fetch_loop.simps [of fetcher p evs resp retries])
  next
    case True
    show ?thesis
    proof (cases "fetcher retries")
      case NetworkError
      with True 1(1) show ?thesis
        by (simp add: fetch_loop.simps [of fetcher p evs resp retries])
    next
      case (Responded r)
      with True 1(2) show ?thesis
        by (cases "ok r") (simp_all add: fetch_loop.simps [of fetcher p evs resp retries])
    qed
  qed
qed

lemma fetch_loop_result:
  "fetch_loop fetcher p evs resp n = (evs', Some r) \<Longrightarrow> ok r \<Longrightarrow>
     resp = Some r \<or> (\<exists>k. n \<le> k \<and> k < MAX_RETRIES \<and> fetcher k = Responded r)"
proof (induction fetcher p evs resp n rule: fetch_loop.induct)
  case (1 fetcher p evs resp retries)
  show ?case
  proof (cases "retries < MAX_RETRIES")
    case False
    with 1(3) show ?thesis by (simp add: fetch_loop.simps [of fetcher p evs resp retries])
  next
    case True
    show ?thesis
    proof (cases "fetcher retries")
      case NetworkError
      with True 1(3) have "fetch_loop fetcher p (evs @ [FetchCall p, Timeout (2 ^ (retries + 1) * 100)]) resp (retries + 1) = (evs', Some r)"
        by (simp add: fetch_loop.simps [of fetcher p evs resp retries])
      from 1(1) [OF True NetworkError this 1(4)] show ?thesis
        by (metis Suc_eq_plus1 Suc_leD)
    next
      case (Responded r')
      show ?thesis
      proof (cases "ok r'")
        case True
        with \<open>retries < MAX_RETRIES\<close> Responded 1(3) have "r' = r"
          by (simp add: fetch_loop.simps [of fetcher p evs resp retries])
        with Responded \<open>retries < MAX_RETRIES\<close> show ?thesis by blast
      next
        case False
        with \<open>retries < MAX_RETRIES\<close> Responded 1(3) have "fetch_loop fetcher p (evs @ [FetchCall p, Timeout (2 ^ (retries + 1) * 100)]) (Some r') (retries + 1) = (evs', Some r)"
          by (simp add: fetch_loop.simps [of fetcher p evs resp retries])
        from 1(2) [OF \<open>retries < MAX_RETRIES\<close> Responded False this 1(4)] False 1(4) show ?thesis
          by (metis Suc_eq_plus1 Suc_leD option.inject)
      qed
    qed
  qed
qed

lemma timeouts_append: "timeouts (xs @ ys) = timeouts xs @ timeouts ys"
  by (induction xs rule: timeouts.induct) simp_all

lemma timeouts_backoff_events:
  "timeouts (backoff_events p n k) = map (\<lambda>j. 2 ^ j * 100) [Suc n..<Suc k]"
proof (induction "k - n" arbitrary: n)
  case 0
  then show ?case by (simp add: backoff_events_def)
next
  case (Suc d)
  then have lt: "n < k" by simp
  have ih: "timeouts (backoff_events p (Suc n) k) = map (\<lambda>j. 2 ^ j * 100) [Suc (Suc n)..<Suc k]"
    using Suc.hyps(1) [of "Suc n"] Suc.hyps(2) by simp
  have "[Suc n..<Suc k] = Suc n # [Suc (Suc n)..<Suc k]"
    by (rule upt_conv_Cons) (use lt in simp)
  then show ?case
    by (simp add: backoff_events_step [OF lt] ih del: upt_Suc)
qed

lemma calls_backoff_events:
  "length (filter is_fetch (backoff_events p n k)) = k - n"
proof (induction "k - n" arbitrary: n)
  case 0
  then show ?case by (simp add: backoff_events_def)
next
  case (Suc d)
  then have lt: "n < k" by simp
  have "length (filter is_fetch (backoff_events p (Suc n) k)) = k - Suc n"
    using Suc.hyps(1) [of "Suc n"] Suc.hyps(2) by simp
  with lt Suc.hyps(2) show ?case
    by (simp add: backoff_events_step [OF lt])
qed

lemma request_success:
  assumes "\<forall>j<k. failed (fetcher j)" and "fetcher k = Responded r" and "ok r"
    and "k < MAX_RETRIES"
  shows "request_with_retries fetcher p = (backoff_events p 0 k @ [FetchCall p], Inr r)"
proof -
  have "fetch_loop fetcher p [] None 0 = ([] @ backoff_events p 0 k @ [FetchCall p], Some r)"
    by (rule fetch_loop_success) (use assms in auto)
  with assms(3) show ?thesis by (simp add: request_with_retries_def)
qed

lemma request_calls:
  "length (filter is_fetch (fst (request_with_retries fetcher p))) \<le> 5"
proof -
  obtain evs resp where fl: "fetch_loop fetcher p [] None 0 = (evs, resp)"
    by (cases "fetch_loop fetcher p [] None 0")
  have "length (filter is_fetch evs) \<le> 5"
    using fetch_loop_calls [of fetcher p "[]" None 0] fl by (simp add: MAX_RETRIES_def)
  then show ?thesis
    by (cases resp) (simp_all add: request_with_retries_def fl)
qed

text \<open>
  C1. When the first attempts fail and attempt \<open>k + 1\<close> succeeds (\<open>k < 5\<close>), the client
  stops there and returns that response; between attempt \<open>j\<close> and \<open>j + 1\<close> (counted
  from 1) it waits \<open>2 ^ j * 100\<close>. With two failures the waits are 200 and 400 and the
  third response is returned. No transport is called more than 5 times.
\<close>

theorem transport_retries_until_success:
  "((\<forall>j<k. failed (fetcher j)) \<and> fetcher k = Responded r \<and> ok r \<and> k < MAX_RETRIES \<longrightarrow>
      request_with_retries fetcher p = (backoff_events p 0 k @ [FetchCall p], Inr r) \<and>
      timeouts (fst (request_with_retries fetcher p)) = map (\<lambda>j. 2 ^ j * 100) [1..<k + 1])
   \<and> (failed (fetcher 0) \<and> failed (fetcher 1) \<and> fetcher 2 = Responded r \<and> ok r \<longrightarrow>
      request_with_retries fetcher p =
        ([FetchCall p, Timeout 200, FetchCall p, Timeout 400, FetchCall p], Inr r))
   \<and> length (filter is_fetch (fst (request_with_retries fetcher p))) \<le> 5"
proof (intro conjI impI)
  assume a: "(\<forall>j<k. failed (fetcher j)) \<and> fetcher k = Responded r \<and> ok r \<and> k < MAX_RETRIES"
  then show eq: "request_with_retries fetcher p = (backoff_events p 0 k @ [FetchCall p], Inr r)"
    by (intro request_success) simp_all
  show "timeouts (fst (request_with_retries fetcher p)) = map (\<lambda>j. 2 ^ j * 100) [1..<k + 1]"
    by (simp add: eq timeouts_append timeouts_backoff_events del: upt_Suc)
next
  assume a: "failed (fetcher 0) \<and> failed (fetcher 1) \<and> fetcher 2 = Responded r \<and> ok r"
  have "\<forall>j<2. failed (fetcher j)"
  proof (intro allI impI)
    fix j :: nat assume "j < 2"
    then have "j = 0 \<or> j = 1" by auto
    with a show "failed (fetcher j)" by auto
  qed
  with a have "request_with_retries fetcher p = (backoff_events p 0 2 @ [FetchCall p], Inr r)"
    by (intro request_success) (simp_all add: MAX_RETRIES_def)
  then show "request_with_retries fetcher p =
        ([FetchCall p, Timeout 200, FetchCall p, Timeout 400, FetchCall p], Inr r)"
    by (simp add: backoff_events_def upt_conv_Cons)
next
  show "length (filter is_fetch (fst (request_with_retries fetcher p))) \<le> 5"
    by (rule request_calls)
qed

theorem transport_retries_until_success_witness:
  "failed (third_time_lucky 0) \<and> failed (third_time_lucky 1) \<and>
   third_time_lucky 2 = Responded good_response \<and> ok good_response \<and>
   request_with_retries third_time_lucky sample_payload =
     ([FetchCall sample_payload, Timeout 200, FetchCall sample_payload, Timeout 400,
       FetchCall sample_payload], Inr good_response) \<and>
   timeouts (fst (request_with_retries third_time_lucky sample_payload)) = [200, 400] \<and>
   length (filter is_fetch (fst (request_with_retries third_time_lucky sample_payload))) = 3"
  using transport_retries_until_success [of 2 third_time_lucky good_response sample_payload]
  by (simp add: third_time_lucky_def failed_def good_response_def bad_response_def)

text \<open>
  C2. When all five attempts fail the client has made exactly five calls and throws the
  exhaustion error, after the fifth wait. Whenever it returns a response, that response
  is an \<^verbatim>\<open>ok\<close> response that one of the calls produced.
\<close>

theorem transport_exhausted:
  "((\<forall>j<MAX_RETRIES. failed (fetcher j)) \<longrightarrow>
      request_with_retries fetcher p =
        (backoff_events p 0 MAX_RETRIES, Inl (Error ''API call failed after multiple retries.'')) \<and>
      length (filter is_fetch (fst (request_with_retries fetcher p))) = 5)
   \<and> (snd (request_with_retries fetcher p) = Inr r \<longrightarrow>
        ok r \<and> (\<exists>k<MAX_RETRIES. fetcher k = Responded r))"
proof (intro conjI impI)
  assume a: "\<forall>j<MAX_RETRIES. failed (fetcher j)"
  then obtain resp' where u: "unusable resp'"
    and eq: "fetch_loop fetcher p [] None 0 = ([] @ backoff_events p 0 MAX_RETRIES, resp')"
    using fetch_loop_exhausted [of 0 fetcher None p "[]"] by (auto simp: unusable_def)
  then show eq': "request_with_retries fetcher p =
        (backoff_events p 0 MAX_RETRIES, Inl (Error ''API call failed after multiple retries.''))"
    by (cases resp') (simp_all add: request_with_retries_def unusable_def)
  show "length (filter is_fetch (fst (request_with_retries fetcher p))) = 5"
    by (simp add: eq' calls_backoff_events MAX_RETRIES_def)
next
  assume a: "snd (request_with_retries fetcher p) = Inr r"
  obtain evs resp where fl: "fetch_loop fetcher p [] None 0 = (evs, resp)"
    by (cases "fetch_loop fetcher p [] None 0")
  with a have resp: "resp = Some r" and okr: "ok r"
    by (auto simp: request_with_retries_def split: option.splits if_splits)
  then show "ok r" by simp
  from fetch_loop_result [of fetcher p "[]" None 0 evs r] fl resp okr
  show "\<exists>k<MAX_RETRIES. fetcher k = Responded r" by auto
qed

theorem transport_exhausted_witness:
  "request_with_retries always_down sample_payload =
     ([FetchCall sample_payload, Timeout 200, FetchCall sample_payload, Timeout 400,
       FetchCall sample_payload, Timeout 800, FetchCall sample_payload, Timeout 1600,
       FetchCall sample_payload, Timeout 3200],
      Inl (Error ''API call failed after multiple retries.'')) \<and>
   length (filter is_fetch (fst (request_with_retries always_down sample_payload))) = 5 \<and>
   snd (request_with_retries third_time_lucky sample_payload) = Inr good_response \<and>
   ok good_response \<and> third_time_lucky 2 = Responded good_response"
proof -
  have s: "snd (request_with_retries third_time_lucky sample_payload) = Inr good_response"
    by (simp add: request_with_retries_def fetch_loop.simps MAX_RETRIES_def
        third_time_lucky_def good_response_def bad_response_def)
  have f: "\<forall>j<MAX_RETRIES. failed (always_down j)"
    by (simp add: always_down_def failed_def bad_response_def)
  show ?thesis
    using transport_exhausted [of always_down sample_payload good_response] f s
      transport_exhausted [of third_time_lucky sample_payload good_response]
    by (simp add: backoff_events_def MAX_RETRIES_def upt_conv_Cons third_time_lucky_def
        good_response_def)
qed

subsection \<open>Doubles\<close>

text \<open>
  Rounding to the nearest double changes a positive fraction by at most the
  \<open>2 ^ 53\<close>-th part of it.
\<close>

lemma pow2_powi: "pow2 k = 2 powi k"
  by (simp add: pow2_def power_int_def power_inverse field_simps)

lemma pow2_pos: "0 < pow2 k"
  by (simp add: pow2_powi)

lemma pow2_diff: "pow2 (j - int n) = pow2 j / 2 ^ n"
  by (simp add: pow2_powi power_int_diff)

lemma pow2_nat: "pow2 (int n) = 2 ^ n"
  by (simp add: pow2_def)

lemma pow2_neg: "k < 0 \<Longrightarrow> pow2 k = 1 / 2 ^ nat (- k)"
  by (simp add: pow2_def)

lemma bit_length_lower: "0 < n \<Longrightarrow> 2 ^ bit_length n \<le> 2 * n"
proof (induction n rule: bit_length.induct)
  case (1 n)
  show ?case
  proof (cases "n div 2 = 0")
    case True
    with 1(2) have "n = 1" by (auto simp: div_eq_0_iff)
    then show ?thesis by (simp add: bit_length.simps [of "Suc 0"] bit_length.simps [of 0])
  next
    case False
    with 1 have "2 ^ bit_length (n div 2) \<le> 2 * (n div 2)" by simp
    also have "\<dots> \<le> n" by simp
    finally show ?thesis using 1(2) by (simp add: bit_length.simps [of n])
  qed
qed

lemma bit_length_upper: "n < 2 ^ bit_length n"
proof (induction n rule: bit_length.induct)
  case (1 n)
  show ?case
  proof (cases "n = 0")
    case True
    then show ?thesis by simp
  next
    case False
    with 1 have "n div 2 < 2 ^ bit_length (n div 2)" by simp
    then have "n < 2 * 2 ^ bit_length (n div 2)" by linarith
    with False show ?thesis by (simp add: bit_length.simps [of n])
  qed
qed

lemma binade_lower:
  assumes "0 < a" and "0 < b"
  shows "pow2 (binade a b) \<le> of_nat a / of_nat b"
proof -
  let ?k = "int (bit_length a) - int (bit_length b)"
  show ?thesis
  proof (cases "if 0 \<le> ?k then 2 ^ nat ?k * b \<le> a else b \<le> a * 2 ^ nat (- ?k)")
    case True
    then have b: "binade a b = ?k" by (simp add: binade_def Let_def)
    show ?thesis
    proof (cases "0 \<le> ?k")
      case True
      with \<open>if 0 \<le> ?k then _ else _\<close> have "2 ^ nat ?k * b \<le> a" by simp
      then have "(of_nat (2 ^ nat ?k * b) :: rat) \<le> of_nat a" by (simp only: of_nat_le_iff)
      with True assms show ?thesis
        by (simp add: b pow2_def field_simps)
    next
      case False
      with \<open>if 0 \<le> ?k then _ else _\<close> have "b \<le> a * 2 ^ nat (- ?k)" by simp
      then have "(of_nat b :: rat) \<le> of_nat (a * 2 ^ nat (- ?k))" by (simp only: of_nat_le_iff)
      with False assms show ?thesis
        by (simp add: b pow2_def field_simps)
    qed
  next
    case False
    then have b: "binade a b = ?k - 1" by (simp add: binade_def Let_def)
    have "pow2 (?k - 1) = 2 ^ bit_length a / (2 * 2 ^ bit_length b)"
      using pow2_diff [of "int (bit_length a)" "Suc (bit_length b)"]
      by (simp add: pow2_nat algebra_simps)
    also have "\<dots> \<le> of_nat a / of_nat b"
    proof -
      have "(2 ^ bit_length a :: nat) \<le> 2 * a" using assms(1) by (rule bit_length_lower)
      then have 1: "(2 ^ bit_length a :: rat) \<le> 2 * of_nat a"
        by (metis of_nat_le_iff of_nat_mult of_nat_numeral of_nat_power)
      have "b < 2 ^ bit_length b" by (rule bit_length_upper)
      then have 2: "(of_nat b :: rat) \<le> 2 ^ bit_length b"
        by (metis less_imp_le of_nat_le_iff of_nat_numeral of_nat_power)
      have "(2 ^ bit_length a :: rat) * of_nat b \<le> (2 * of_nat a) * 2 ^ bit_length b"
        by (rule mult_mono [OF 1 2]) simp_all
      with assms show ?thesis by (simp add: field_simps)
    qed
    finally show ?thesis by (simp add: b)
  qed
qed

lemma abs_scale: "0 < p \<Longrightarrow> \<bar>r * p - y * p\<bar> = \<bar>r - y\<bar> * (p :: rat)"
  by (simp add: left_diff_distrib [symmetric] abs_mult)

lemma round_half_even_error:
  assumes "0 < d"
  shows "\<bar>of_nat (round_half_even n d) - of_nat n / of_nat d :: rat\<bar> \<le> 1 / 2"
proof -
  let ?q = "n div d" and ?r = "n mod d"
  let ?f = "of_nat ?r / of_nat d :: rat"
  have n: "(of_nat n :: rat) = of_nat ?q * of_nat d + of_nat ?r"
    by (metis div_mult_mod_eq of_nat_add of_nat_mult)
  have frac: "(of_nat n :: rat) / of_nat d = of_nat ?q + ?f"
    using assms by (simp add: n field_simps)
  have f0: "0 \<le> ?f" by simp
  consider "2 * ?r < d" | "d < 2 * ?r" | "2 * ?r = d" by linarith
  then show ?thesis
  proof cases
    case 1
    then have "(2 * of_nat ?r :: rat) \<le> of_nat d"
      by (metis less_imp_le of_nat_le_iff of_nat_mult of_nat_numeral)
    with assms have "?f \<le> 1 / 2" by (simp add: field_simps)
    moreover have "round_half_even n d = ?q" using 1 by (simp add: round_half_even_def Let_def)
    ultimately show ?thesis using f0 by (simp add: frac)
  next
    case 2
    then have "(of_nat d :: rat) \<le> 2 * of_nat ?r"
      by (metis less_imp_le of_nat_le_iff of_nat_mult of_nat_numeral)
    with assms have lo: "1 / 2 \<le> ?f" by (simp add: field_simps)
    have "?r < d" using assms by simp
    then have "(of_nat ?r :: rat) \<le> of_nat d"
      by (metis less_imp_le of_nat_le_iff)
    with assms have hi: "?f \<le> 1" by (simp add: field_simps)
    have "round_half_even n d = ?q + 1" using 2 by (simp add: round_half_even_def Let_def)
    then have "of_nat (round_half_even n d) - of_nat n / of_nat d = 1 - ?f"
      by (simp add: frac)
    with lo hi show ?thesis by simp
  next
    case 3
    then have "(of_nat d :: rat) = 2 * of_nat ?r"
      by (metis of_nat_mult of_nat_numeral)
    with assms have eq: "?f = 1 / 2" by (simp add: field_simps)
    have "round_half_even n d = ?q \<or> round_half_even n d = ?q + 1"
      using 3 by (simp add: round_half_even_def Let_def)
    then show ?thesis
    proof
      assume "round_half_even n d = ?q"
      then have "of_nat (round_half_even n d) - of_nat n / of_nat d = - ?f" by (simp add: frac)
      with eq show ?thesis by simp
    next
      assume "round_half_even n d = ?q + 1"
      then have "of_nat (round_half_even n d) - of_nat n / of_nat d = 1 - ?f" by (simp add: frac)
      with eq show ?thesis by simp
    qed
  qed
qed

lemma nearest_double_error:
  assumes "0 < a" and "0 < b"
  shows "\<bar>double_value (nearest_double a b) - of_nat a / of_nat b\<bar>
           \<le> (of_nat a / of_nat b) / 2 ^ 53"
proof -
  let ?e = "binade a b - 52"
  let ?x = "of_nat a / of_nat b :: rat"
  have half: "pow2 ?e / 2 \<le> ?x / 2 ^ 53"
  proof -
    have "pow2 ?e / 2 = pow2 (binade a b) / 2 ^ 53"
      using pow2_diff [of "binade a b" 52] by simp
    also have "\<dots> \<le> ?x / 2 ^ 53"
      using binade_lower [OF assms] by (simp add: divide_right_mono)
    finally show ?thesis .
  qed
  have scaled: "\<bar>double_value (nearest_double a b) - ?x\<bar> \<le> pow2 ?e / 2"
  proof (cases "0 \<le> ?e")
    case True
    let ?d = "b * 2 ^ nat ?e"
    have d: "0 < ?d" using assms by simp
    have v: "double_value (nearest_double a b) = of_nat (round_half_even a ?d) * pow2 ?e"
      using True by (simp add: nearest_double_def Let_def double_value_def)
    have x: "?x = (of_nat a / of_nat ?d) * pow2 ?e"
      using True assms by (simp add: pow2_def)
    have "\<bar>of_nat (round_half_even a ?d) * pow2 ?e - (of_nat a / of_nat ?d) * pow2 ?e\<bar>
        = \<bar>of_nat (round_half_even a ?d) - of_nat a / of_nat ?d\<bar> * pow2 ?e"
      by (rule abs_scale [OF pow2_pos])
    also have "\<dots> \<le> (1 / 2) * pow2 ?e"
      using round_half_even_error [OF d, of a] pow2_pos [of ?e]
      by (intro mult_right_mono) simp_all
    also have "\<dots> = pow2 ?e / 2" by simp
    finally show ?thesis by (simp only: v x)
  next
    case False
    let ?n = "a * 2 ^ nat (- ?e)"
    have v: "double_value (nearest_double a b) = of_nat (round_half_even ?n b) * pow2 ?e"
      using False by (simp add: nearest_double_def Let_def double_value_def)
    have x: "?x = (of_nat ?n / of_nat b) * pow2 ?e"
      using False assms by (simp add: pow2_def)
    have "\<bar>of_nat (round_half_even ?n b) * pow2 ?e - (of_nat ?n / of_nat b) * pow2 ?e\<bar>
        = \<bar>of_nat (round_half_even ?n b) - of_nat ?n / of_nat b\<bar> * pow2 ?e"
      by (rule abs_scale [OF pow2_pos])
    also have "\<dots> \<le> (1 / 2) * pow2 ?e"
      using round_half_even_error [OF assms(2), of ?n] pow2_pos [of ?e]
      by (intro mult_right_mono) simp_all
    also have "\<dots> = pow2 ?e / 2" by simp
    finally show ?thesis by (simp only: v x)
  qed
  from scaled half show ?thesis by linarith
qed


lemma nearest_double_value_pos:
  assumes "0 < a" and "0 < b"
  shows "0 < double_value (nearest_double a b)"
proof -
  let ?x = "of_nat a / of_nat b :: rat"
  have x: "0 < ?x" using assms by simp
  have "?x / 2 ^ 53 < ?x" using x by (simp add: field_simps)
  with nearest_double_error [OF assms] show ?thesis by linarith
qed

lemma double_value_fraction:
  "double_value x * of_nat k =
     (if 0 \<le> snd x then of_nat (fst x * k * 2 ^ nat (snd x)) / of_nat 1
      else of_nat (fst x * k) / of_nat (2 ^ nat (- snd x)))"
  by (simp add: double_value_def pow2_def)

lemma percentage_error:
  assumes "0 < c" and "0 < t"
  shows "\<exists>x. percentage c t = Num x \<and>
           \<bar>x - 100 * of_nat c / of_nat t\<bar> \<le> (100 * of_nat c / of_nat t) / 2 ^ 51"
proof -
  let ?q = "of_nat c / of_nat t :: rat"
  let ?y = "double_value (js_divide c t)"
  let ?z = "double_value (js_multiply (js_divide c t) 100)"
  have q: "0 < ?q" using assms by simp
  have y: "\<bar>?y - ?q\<bar> \<le> ?q / 2 ^ 53"
    unfolding js_divide_def by (rule nearest_double_error [OF assms])
  have ypos: "0 < ?y"
    unfolding js_divide_def by (rule nearest_double_value_pos [OF assms])
  have z: "\<bar>?z - ?y * 100\<bar> \<le> (?y * 100) / 2 ^ 53"
  proof (cases "0 \<le> snd (js_divide c t)")
    case True
    let ?a = "fst (js_divide c t) * 100 * 2 ^ nat (snd (js_divide c t))"
    have v: "?y * 100 = of_nat ?a / of_nat 1"
      using double_value_fraction [of "js_divide c t" 100] True by simp
    with ypos have "0 < (of_nat ?a :: rat)" by simp
    then have "0 < ?a" by (simp only: of_nat_0_less_iff)
    from nearest_double_error [OF this, of 1] True show ?thesis
      by (simp only: js_multiply_def v if_True)
  next
    case False
    let ?a = "fst (js_divide c t) * 100" and ?b = "2 ^ nat (- snd (js_divide c t)) :: nat"
    have v: "?y * 100 = of_nat ?a / of_nat ?b"
      using double_value_fraction [of "js_divide c t" 100] False by simp
    have b: "0 < ?b" by simp
    from v ypos have "0 < (of_nat ?a :: rat) / of_nat ?b" by simp
    then have "0 < (of_nat ?a :: rat)" by (simp add: zero_less_divide_iff)
    then have "0 < ?a" by (simp only: of_nat_0_less_iff)
    from nearest_double_error [OF this b] False show ?thesis
      by (simp only: js_multiply_def v if_False)
  qed
  have "percentage c t = Num ?z" using assms by (simp add: percentage_def)
  moreover have "\<bar>?z - 100 * of_nat c / of_nat t\<bar> \<le> (100 * of_nat c / of_nat t) / 2 ^ 51"
  proof -
    have yq: "?y \<le> ?q + ?q / 2 ^ 53" using y by linarith
    have h: "\<bar>?y * 100 - 100 * ?q\<bar> \<le> 100 * (?q / 2 ^ 53)" using y by linarith
    have "\<bar>?z - 100 * ?q\<bar> \<le> \<bar>?z - ?y * 100\<bar> + \<bar>?y * 100 - 100 * ?q\<bar>" by linarith
    also have "\<dots> \<le> (?y * 100) / 2 ^ 53 + 100 * (?q / 2 ^ 53)"
      using h z by linarith
    also have "\<dots> \<le> ((?q + ?q / 2 ^ 53) * 100) / 2 ^ 53 + 100 * (?q / 2 ^ 53)"
      using yq by (simp add: field_simps)
    also have "\<dots> \<le> (100 * ?q) / 2 ^ 51"
      using q by (simp add: field_simps)
    finally show ?thesis by (simp add: field_simps)
  qed
  ultimately show ?thesis by blast
qed

lemma bit_length_pow: "bit_length (2 ^ n) = Suc n"
  by (induction n)
     (simp_all add: bit_length.simps [of "2 * x" for x] bit_length.simps [of "Suc 0"]
        bit_length.simps [of 0])

lemma percentage_2_3: "percentage 2 3 = Num (2345624805922133 / 35184372088832)"
proof -
  have d: "js_divide 2 3 = (6004799503160661, - 53)"
    by (simp add: js_divide_def nearest_double_def binade_def bit_length.simps
        round_half_even_def Let_def)
  have b: "bit_length 600479950316066100 = 60"
    by (simp add: bit_length.simps)
  show ?thesis
    using bit_length_pow [of 53]
    by (simp add: percentage_def d js_multiply_def nearest_double_def binade_def b
        round_half_even_def Let_def double_value_def pow2_def)
qed

lemma percentage_7_25: "percentage 7 25 = Num (7881299347898369 / 281474976710656)"
proof -
  have d: "js_divide 7 25 = (5044031582654956, - 54)"
    by (simp add: js_divide_def nearest_double_def binade_def bit_length.simps
        round_half_even_def Let_def)
  have b: "bit_length 504403158265495600 = 59"
    by (simp add: bit_length.simps)
  show ?thesis
    using bit_length_pow [of 54]
    by (simp add: percentage_def d js_multiply_def nearest_double_def binade_def b
        round_half_even_def Let_def double_value_def pow2_def)
qed

lemma percentage_1_1: "percentage (Suc 0) (Suc 0) = Num 100"
proof -
  have d: "js_divide (Suc 0) (Suc 0) = (4503599627370496, - 52)"
    by (simp add: js_divide_def nearest_double_def binade_def bit_length.simps
        round_half_even_def Let_def)
  have b: "bit_length 450359962737049600 = 59"
    by (simp add: bit_length.simps)
  have c: "bit_length 4503599627370496 = 53"
    using bit_length_pow [of 52] by simp
  have m: "js_multiply (4503599627370496, - 52) 100 = (7036874417766400, - 46)"
    by (simp add: js_multiply_def nearest_double_def binade_def b c
        round_half_even_def Let_def)
  show ?thesis
    by (simp add: percentage_def d m double_value_def pow2_def)
qed

subsection \<open>Scoring\<close>

lemma get_prop_readable: "readable v \<Longrightarrow> get_prop v k = Inr (field v k)"
  by (cases v) (simp_all add: readable_def field_def)

lemma count_correct_shift:
  "list_all readable qs \<Longrightarrow>
   count_correct ans c i qs =
     Inr (c + length (filter (\<lambda>j. strict_eq (ans (i + j)) (field (qs ! j) ''correctAnswer''))
                        [0..<length qs]))"
proof (induction qs arbitrary: c i)
  case Nil
  then show ?case by simp
next
  case (Cons q rest)
  let ?hit = "strict_eq (ans i) (field q ''correctAnswer'')"
  let ?c' = "if ?hit then c + 1 else c"
  let ?tail = "length (filter (\<lambda>j. strict_eq (ans (i + 1 + j)) (field (rest ! j) ''correctAnswer''))
                  [0..<length rest])"
  from Cons.prems have q: "readable q" and rest: "list_all readable rest" by simp_all
  have step: "count_correct ans c i (q # rest) = count_correct ans ?c' (i + 1) rest"
    by (simp add: get_prop_readable [OF q])
  have ih: "count_correct ans ?c' (i + 1) rest = Inr (?c' + ?tail)"
    by (rule Cons.IH [OF rest])
  have upt: "[0..<length (q # rest)] = 0 # map Suc [0..<length rest]"
    by (simp add: upt_conv_Cons map_Suc_upt del: upt_Suc)
  have rhs: "length (filter (\<lambda>j. strict_eq (ans (i + j)) (field ((q # rest) ! j) ''correctAnswer''))
                [0..<length (q # rest)]) = (if ?hit then 1 else 0) + ?tail"
    by (subst upt) (simp add: filter_map comp_def)
  show ?case
    by (simp only: step ih rhs) simp
qed

lemma count_correct_total:
  "list_all readable qs \<Longrightarrow> count_correct ans 0 0 qs = Inr (length (correct_indices ans qs))"
  by (simp add: count_correct_shift correct_indices_def)

lemma length_correct_indices: "length (correct_indices ans qs) \<le> length qs"
  unfolding correct_indices_def
  using length_filter_le [of _ "[0..<length qs]"] by simp

lemma strict_eq_string_equal:
  "a \<noteq> None \<or> v \<noteq> JUndefined \<Longrightarrow> strict_eq a v = string_equal a v"
  by (cases a) auto

lemma correct_indices_matching:
  "no_blank_pair ans qs \<Longrightarrow> correct_indices ans qs = matching_indices ans qs"
  unfolding correct_indices_def matching_indices_def no_blank_pair_def
  by (rule filter_cong) (auto simp: list_all_iff strict_eq_string_equal)

lemma length_matching_indices: "length (matching_indices ans qs) \<le> length qs"
  unfolding matching_indices_def
  using length_filter_le [of _ "[0..<length qs]"] by simp

lemma sample_quiz_result:
  "calculateResults sample_quiz =
     Inr (sample_quiz\<lparr>results :=
            Some \<lparr>score = 2, accuracy = Num (2345624805922133 / 35184372088832),
                  totalQuestions = 3\<rparr>\<rparr>)"
  by (simp add: calculateResults_def sample_quiz_def sample_question_def initial_session_def
      percentage_2_3 [unfolded numeral_2_eq_2 numeral_3_eq_3])

text \<open>
  C3 (as the code has it). Take an array of fewer than \<open>2 ^ 32\<close> readable question
  records (every array is that short) in which no index is both unanswered and without a
  \<^verbatim>\<open>correctAnswer\<close>. Then \<^verbatim>\<open>calculateResults\<close> counts exactly the indices whose
  stored answer and \<^verbatim>\<open>correctAnswer\<close> are the same string, the total is the length of
  the array, and the accuracy is the double \<^verbatim>\<open>(correctCount / totalQuestions) * 100\<close>:
  \<^verbatim>\<open>NaN\<close> for an empty array, 0 for no correct answer, and otherwise within the
  \<open>2 ^ 51\<close>-th part of \<open>100 * correct / total\<close>. For correct answers A, B, C and
  answers A, X, C the result is 2 of 3 and the double 66.66666666666666, which is 66.67
  to two places.
\<close>

theorem calculateResults_scores:
  "(questions s = JArr qs \<and> list_all readable qs \<and> no_blank_pair (answers s) qs \<and>
    length qs < 2 ^ 32 \<longrightarrow>
      (\<exists>r. calculateResults s = Inr (s\<lparr>results := Some r\<rparr>) \<and>
           score r = length (matching_indices (answers s) qs) \<and>
           totalQuestions r = length qs \<and>
           (qs = [] \<longrightarrow> accuracy r = NaN) \<and>
           (qs \<noteq> [] \<and> score r = 0 \<longrightarrow> accuracy r = Num 0) \<and>
           (0 < score r \<longrightarrow>
              (\<exists>x. accuracy r = Num x \<and>
                 \<bar>x - 100 * of_nat (score r) / of_nat (length qs)\<bar>
                   \<le> (100 * of_nat (score r) / of_nat (length qs)) / 2 ^ 51))))
   \<and> (\<exists>r. calculateResults sample_quiz = Inr (sample_quiz\<lparr>results := Some r\<rparr>) \<and>
           score r = 2 \<and> totalQuestions r = 3 \<and>
           accuracy r = Num (2345624805922133 / 35184372088832) \<and>
           \<bar>2345624805922133 / 35184372088832 - 6667 / 100 :: rat\<bar> < 1 / 200)"
proof (intro conjI impI)
  assume a: "questions s = JArr qs \<and> list_all readable qs \<and> no_blank_pair (answers s) qs \<and>
    length qs < 2 ^ 32"
  let ?n = "length (matching_indices (answers s) qs)"
  let ?r = "\<lparr>score = ?n, accuracy = percentage ?n (length qs), totalQuestions = length qs\<rparr>"
  from a have "count_correct (answers s) 0 0 qs = Inr ?n"
    by (simp add: count_correct_total correct_indices_matching)
  with a have cr: "calculateResults s = Inr (s\<lparr>results := Some ?r\<rparr>)"
    by (simp add: calculateResults_def)
  have le: "?n \<le> length qs" by (rule length_matching_indices)
  have empty: "qs = [] \<longrightarrow> accuracy ?r = NaN"
    using le by (auto simp: percentage_def)
  have zero: "qs \<noteq> [] \<and> score ?r = 0 \<longrightarrow> accuracy ?r = Num 0"
    by (simp add: percentage_def)
  have pos: "0 < score ?r \<longrightarrow>
      (\<exists>x. accuracy ?r = Num x \<and>
         \<bar>x - 100 * of_nat (score ?r) / of_nat (length qs)\<bar>
           \<le> (100 * of_nat (score ?r) / of_nat (length qs)) / 2 ^ 51)"
  proof
    assume "0 < score ?r"
    then have n: "0 < ?n" by simp
    with le have t: "0 < length qs" by linarith
    from percentage_error [OF n t] show "\<exists>x. accuracy ?r = Num x \<and>
         \<bar>x - 100 * of_nat (score ?r) / of_nat (length qs)\<bar>
           \<le> (100 * of_nat (score ?r) / of_nat (length qs)) / 2 ^ 51"
      by simp
  qed
  show "\<exists>r. calculateResults s = Inr (s\<lparr>results := Some r\<rparr>) \<and>
           score r = ?n \<and>
           totalQuestions r = length qs \<and>
           (qs = [] \<longrightarrow> accuracy r = NaN) \<and>
           (qs \<noteq> [] \<and> score r = 0 \<longrightarrow> accuracy r = Num 0) \<and>
           (0 < score r \<longrightarrow>
              (\<exists>x. accuracy r = Num x \<and>
                 \<bar>x - 100 * of_nat (score r) / of_nat (length qs)\<bar>
                   \<le> (100 * of_nat (score r) / of_nat (length qs)) / 2 ^ 51))"
    using cr empty zero pos by (intro exI [of _ ?r]) simp
next
  show "\<exists>r. calculateResults sample_quiz = Inr (sample_quiz\<lparr>results := Some r\<rparr>) \<and>
           score r = 2 \<and> totalQuestions r = 3 \<and>
           accuracy r = Num (2345624805922133 / 35184372088832) \<and>
           \<bar>2345624805922133 / 35184372088832 - 6667 / 100 :: rat\<bar> < 1 / 200"
    by (intro exI [of _ "\<lparr>score = 2, accuracy = Num (2345624805922133 / 35184372088832),
          totalQuestions = 3\<rparr>"])
       (simp add: sample_quiz_result)
qed

theorem calculateResults_scores_witness:
  "questions sample_quiz = JArr [sample_question ''Q1'' ''A'', sample_question ''Q2'' ''B'',
                                 sample_question ''Q3'' ''C''] \<and>
   list_all readable [sample_question ''Q1'' ''A'', sample_question ''Q2'' ''B'',
                      sample_question ''Q3'' ''C''] \<and>
   no_blank_pair (answers sample_quiz) [sample_question ''Q1'' ''A'', sample_question ''Q2'' ''B'',
                      sample_question ''Q3'' ''C''] \<and>
   matching_indices (answers sample_quiz) [sample_question ''Q1'' ''A'', sample_question ''Q2'' ''B'',
                      sample_question ''Q3'' ''C''] = [0, 2] \<and>
   calculateResults sample_quiz =
     Inr (sample_quiz\<lparr>results :=
            Some \<lparr>score = 2, accuracy = Num (2345624805922133 / 35184372088832),
                  totalQuestions = 3\<rparr>\<rparr>)"
proof -
  let ?qs = "[sample_question ''Q1'' ''A'', sample_question ''Q2'' ''B'', sample_question ''Q3'' ''C'']"
  have q: "questions sample_quiz = JArr ?qs"
    by (simp add: sample_quiz_def)
  have r: "list_all readable ?qs"
    by (simp add: readable_def sample_question_def)
  have b: "no_blank_pair (answers sample_quiz) ?qs"
    by (simp add: no_blank_pair_def sample_quiz_def upt_conv_Cons)
  have c: "matching_indices (answers sample_quiz) ?qs = [0, 2]"
    by (simp add: matching_indices_def sample_quiz_def sample_question_def field_def upt_conv_Cons)
  from calculateResults_scores [of sample_quiz ?qs] q r b
  obtain r where "calculateResults sample_quiz = Inr (sample_quiz\<lparr>results := Some r\<rparr>)"
    and "score r = length (matching_indices (answers sample_quiz) ?qs)"
    by auto
  with q r b c show ?thesis by (simp add: sample_quiz_result)
qed

lemma count_first_seven:
  "correct_indices (\<lambda>i. if i < 7 then Some ''A'' else None) (replicate 25 (sample_question ''Q'' ''A''))
     = [0, 1, 2, 3, 4, 5, 6]"
  by (simp add: correct_indices_def upt_conv_Cons field_def sample_question_def)

text \<open>
  C3 as stated fails in two ways. A question without a \<^verbatim>\<open>correctAnswer\<close> that is
  not answered is counted, although no string is equal to another. And for 7 correct
  answers of 25 the accuracy is the double 28.000000000000004, not
  \<open>100 * 7 / 25 = 28\<close>.
\<close>

theorem score_is_not_the_formula:
  "calculateResults blank_quiz =
     Inr (blank_quiz\<lparr>results := Some \<lparr>score = 1, accuracy = Num 100, totalQuestions = 1\<rparr>\<rparr>) \<and>
   matching_indices (answers blank_quiz) [question_without_answer] = [] \<and>
   calculateResults quiz_7_of_25 =
     Inr (quiz_7_of_25\<lparr>results :=
            Some \<lparr>score = 7, accuracy = Num (7881299347898369 / 281474976710656),
                  totalQuestions = 25\<rparr>\<rparr>) \<and>
   (100 * 7 / 25 :: rat) = 28 \<and>
   (7881299347898369 / 281474976710656 :: rat) = 28 + 1 / 2 ^ 48"
proof -
  have blank: "calculateResults blank_quiz =
     Inr (blank_quiz\<lparr>results := Some \<lparr>score = 1, accuracy = Num 100, totalQuestions = 1\<rparr>\<rparr>)"
    by (simp add: calculateResults_def blank_quiz_def initial_session_def
        question_without_answer_def percentage_1_1)
  have none: "matching_indices (answers blank_quiz) [question_without_answer] = []"
    by (simp add: matching_indices_def blank_quiz_def initial_session_def)
  have rd: "list_all readable (replicate 25 (sample_question ''Q'' ''A''))"
    by (simp add: list_all_iff readable_def sample_question_def)
  have seven: "calculateResults quiz_7_of_25 =
     Inr (quiz_7_of_25\<lparr>results :=
            Some \<lparr>score = 7, accuracy = Num (7881299347898369 / 281474976710656),
                  totalQuestions = 25\<rparr>\<rparr>)"
  proof -
    have e: "Suc (Suc (Suc (Suc (Suc (Suc (Suc 0)))))) = 7"
      by simp
    show ?thesis
      by (simp add: calculateResults_def quiz_7_of_25_def initial_session_def
          count_correct_total [OF rd] count_first_seven e percentage_7_25)
  qed
  from blank none seven show ?thesis by simp
qed

text \<open>
  On question records whose \<^verbatim>\<open>correctAnswer\<close> is a string, an index without a stored
  answer is not counted, and dropping answers cannot raise the count.
\<close>

lemma length_filter_mono:
  "(\<And>x. x \<in> set xs \<Longrightarrow> P x \<Longrightarrow> Q x) \<Longrightarrow> length (filter P xs) \<le> length (filter Q xs)"
  by (induction xs) auto

lemma unanswered_not_counted:
  assumes "field (qs ! i) ''correctAnswer'' = JStr c" and "ans i = None"
  shows "i \<notin> set (correct_indices ans qs)"
  using assms by (simp add: correct_indices_def)

lemma fewer_answers_lower_score:
  assumes "\<forall>q\<in>set qs. \<exists>c. field q ''correctAnswer'' = JStr c" and "ans' \<subseteq>\<^sub>m ans"
  shows "length (correct_indices ans' qs) \<le> length (correct_indices ans qs)"
  unfolding correct_indices_def
proof (rule length_filter_mono)
  fix i
  assume i: "i \<in> set [0..<length qs]"
    and hit: "strict_eq (ans' i) (field (qs ! i) ''correctAnswer'')"
  from i have "qs ! i \<in> set qs" by simp
  with assms(1) obtain c where c: "field (qs ! i) ''correctAnswer'' = JStr c" by blast
  with hit have "ans' i = Some c" by (cases "ans' i") simp_all
  with assms(2) have "ans i = Some c" by (auto simp: map_le_def dom_def)
  with c show "strict_eq (ans i) (field (qs ! i) ''correctAnswer'')" by simp
qed

text \<open>
  C9. A question record without a \<^verbatim>\<open>correctAnswer\<close> is counted correct when it has
  no stored answer: both sides of the comparison are \<^verbatim>\<open>undefined\<close>. With one such
  question and no answers the score is 1 of 1 and the accuracy 100.
\<close>

theorem unanswered_counted_correct:
  "calculateResults (initial_session\<lparr>questions := JArr [question_without_answer]\<rparr>) =
     Inr (initial_session\<lparr>questions := JArr [question_without_answer],
            results := Some \<lparr>score = 1, accuracy = Num 100, totalQuestions = 1\<rparr>\<rparr>) \<and>
   answers (initial_session\<lparr>questions := JArr [question_without_answer]\<rparr>) 0 = None"
  by (simp add: calculateResults_def initial_session_def question_without_answer_def
      percentage_1_1)

subsection \<open>Decoding\<close>

lemma decode_response_no_body: "json r = None \<Longrightarrow> decode_response parser r = Inl SyntaxError"
  by (simp add: decode_response_def)

lemma decode_response_text:
  "json r = Some result \<Longrightarrow> extract_text result = Inr t \<Longrightarrow>
   decode_response parser r =
     (case parser t of None \<Rightarrow> Inl SyntaxError | Some d \<Rightarrow> get_prop d ''questions'')"
  by (simp add: decode_response_def)

lemma get_prop_error: "get_prop v k = Inl e \<Longrightarrow> e = TypeError"
  by (cases v) simp_all

lemma get_index_error: "get_index v i = Inl e \<Longrightarrow> e = TypeError"
  by (cases v) simp_all

lemma and_then_error:
  "and_then r f = Inl e \<Longrightarrow> (r = Inl e) \<or> (\<exists>v. r = Inr v \<and> f v = Inl e)"
  by (cases r) simp_all

lemma extract_text_error: "extract_text result = Inl e \<Longrightarrow> e = TypeError"
  unfolding extract_text_def
  by (auto dest!: and_then_error dest: get_prop_error get_index_error)

text \<open>
  C4 (as the code has it). Decoding fails when the body does not decode, when a step of
  the path \<^verbatim>\<open>candidates[0].content.parts[0].text\<close> reads from \<^verbatim>\<open>undefined\<close> or
  \<^verbatim>\<open>null\<close> (TypeError), when the text is absent (\<^verbatim>\<open>JSON.parse(undefined)\<close>
  throws), when the text does not parse (SyntaxError) and when it parses to
  \<^verbatim>\<open>null\<close>. In every other case the value under \<^verbatim>\<open>questions\<close> of the parsed
  data is handed on whole and unchanged: the records in it are not inspected.
\<close>

theorem decode_response_outcomes:
  "(json r = None \<longrightarrow> decode_response parser r = Inl SyntaxError)
   \<and> (json r = Some result \<and> extract_text result = Inl e \<longrightarrow>
        e = TypeError \<and> decode_response parser r = Inl TypeError)
   \<and> (json r = Some result \<and> extract_text result = Inr JUndefined \<and> parser JUndefined = None \<longrightarrow>
        decode_response parser r = Inl SyntaxError)
   \<and> (json r = Some result \<and> extract_text result = Inr t \<and> parser t = None \<longrightarrow>
        decode_response parser r = Inl SyntaxError)
   \<and> (json r = Some result \<and> extract_text result = Inr t \<and> parser t = Some JNull \<longrightarrow>
        decode_response parser r = Inl TypeError)
   \<and> (json r = Some result \<and> extract_text result = Inr t \<and> parser t = Some d \<and> readable d \<longrightarrow>
        decode_response parser r = Inr (field d ''questions''))
   \<and> malformed TypeError \<and> malformed SyntaxError"
proof (intro conjI impI)
  assume "json r = Some result \<and> extract_text result = Inl e"
  then have j: "json r = Some result" and x: "extract_text result = Inl e" by simp_all
  from x show "e = TypeError" by (rule extract_text_error)
  with j x show "decode_response parser r = Inl TypeError"
    by (simp add: decode_response_def)
qed (simp_all add: decode_response_no_body decode_response_text get_prop_readable malformed_def)

theorem decode_response_outcomes_witness:
  "json \<lparr>ok = True, json = None\<rparr> = None \<and>
   decode_response sample_JSON_parse \<lparr>ok = True, json = None\<rparr> = Inl SyntaxError \<and>
   extract_text (JObj [(''candidates'', JArr [])]) = Inl TypeError \<and>
   decode_response sample_JSON_parse \<lparr>ok = True, json = Some (JObj [(''candidates'', JArr [])])\<rparr>
     = Inl TypeError \<and>
   extract_text (envelope JUndefined) = Inr JUndefined \<and> sample_JSON_parse JUndefined = None \<and>
   decode_response sample_JSON_parse \<lparr>ok = True, json = Some (envelope JUndefined)\<rparr>
     = Inl SyntaxError \<and>
   extract_text (envelope (JStr ''not json'')) = Inr (JStr ''not json'') \<and>
   sample_JSON_parse (JStr ''not json'') = None \<and>
   decode_response sample_JSON_parse \<lparr>ok = True, json = Some (envelope (JStr ''not json''))\<rparr>
     = Inl SyntaxError \<and>
   decode_response (\<lambda>v. Some JNull) \<lparr>ok = True, json = Some (envelope (JStr ''null''))\<rparr>
     = Inl TypeError \<and>
   readable (JObj [(''questions'', JArr [incomplete_record])]) \<and>
   decode_response sample_JSON_parse \<lparr>ok = True, json = Some (envelope (JStr incomplete_text))\<rparr>
     = Inr (JArr [incomplete_record])"
proof -
  have x1: "extract_text (JObj [(''candidates'', JArr [])]) = Inl TypeError"
    by (simp add: extract_text_def)
  have x2: "extract_text (envelope t) = Inr t" for t
    by (simp add: extract_text_def envelope_def)
  have p1: "sample_JSON_parse JUndefined = None" "sample_JSON_parse (JStr ''not json'') = None"
    by (simp_all add: sample_JSON_parse_def incomplete_text_def)
  have p2: "sample_JSON_parse (JStr incomplete_text)
      = Some (JObj [(''questions'', JArr [incomplete_record])])"
    by (simp add: sample_JSON_parse_def)
  have rd: "readable (JObj [(''questions'', JArr [incomplete_record])])"
    by (simp add: readable_def)
  show ?thesis
    using decode_response_outcomes [of "\<lparr>ok = True, json = None\<rparr>" sample_JSON_parse]
      decode_response_outcomes [of "\<lparr>ok = True, json = Some (JObj [(''candidates'', JArr [])])\<rparr>"
         sample_JSON_parse "JObj [(''candidates'', JArr [])]" TypeError]
      decode_response_outcomes [of "\<lparr>ok = True, json = Some (envelope JUndefined)\<rparr>"
         sample_JSON_parse "envelope JUndefined"]
      decode_response_outcomes [of "\<lparr>ok = True, json = Some (envelope (JStr ''not json''))\<rparr>"
         sample_JSON_parse "envelope (JStr ''not json'')" _ "JStr ''not json''"]
      decode_response_outcomes [of "\<lparr>ok = True, json = Some (envelope (JStr ''null''))\<rparr>"
         "\<lambda>v. Some JNull" "envelope (JStr ''null'')" _ "JStr ''null''"]
      decode_response_outcomes [of "\<lparr>ok = True, json = Some (envelope (JStr incomplete_text))\<rparr>"
         sample_JSON_parse "envelope (JStr incomplete_text)" _ "JStr incomplete_text"
         "JObj [(''questions'', JArr [incomplete_record])]"]
      x1 x2 p1 p2 rd
    by (simp add: field_def)
qed

text \<open>
  C4 as stated fails: a record with only a \<^verbatim>\<open>questionText\<close> is accepted, and the
  array that holds it becomes the question set.
\<close>

theorem incomplete_record_accepted:
  "lacks_field incomplete_record \<and>
   field incomplete_record ''options'' = JUndefined \<and>
   field incomplete_record ''correctAnswer'' = JUndefined \<and>
   field incomplete_record ''solution'' = JUndefined \<and>
   decode_response sample_JSON_parse \<lparr>ok = True, json = Some (envelope (JStr incomplete_text))\<rparr>
     = Inr (JArr [incomplete_record])"
  by (simp add: lacks_field_def field_def incomplete_record_def decode_response_def
      extract_text_def envelope_def sample_JSON_parse_def)

subsection \<open>Submitting\<close>

lemma run_append: "run s (xs @ ys) = run (run s xs) ys"
  by (simp add: run_def)

lemma run_io: "list_all is_io evs \<Longrightarrow> run s evs = s"
proof (induction evs arbitrary: s)
  case Nil
  then show ?case by (simp add: run_def)
next
  case (Cons e evs)
  then have "is_io e" and rest: "list_all is_io evs" by simp_all
  from \<open>is_io e\<close> have "apply_event s e = s" by (cases e) simp_all
  with Cons.IH [OF rest, of s] show ?case by (simp add: run_def)
qed

lemma run_resets:
  "run s resets =
     \<lparr>loading = True, questions = JNull, answers = Map.empty, results = None, error = None\<rparr>"
  by (cases s) (simp add: run_def resets_def)

lemma requests_append: "requests (xs @ ys) = requests xs @ requests ys"
  by (induction xs rule: requests.induct) simp_all

lemma requests_ReadFile [simp]: "requests (map ReadFile fs) = []"
  by (induction fs) simp_all

lemma encode_files_events:
  "\<exists>fs'. fst (encode_files reader evs ps fs) = evs @ map ReadFile fs'"
proof (induction fs arbitrary: evs ps)
  case Nil
  show ?case by (intro exI [of _ "[]"]) simp
next
  case (Cons f fs)
  show ?case
  proof (cases "fileToBase64 reader f")
    case (Inl e)
    then show ?thesis by (intro exI [of _ "[f]"]) simp
  next
    case (Inr d)
    from Cons.IH [of "evs @ [ReadFile f]" "ps @ [InlineData (file_type f) d]"]
    obtain fs' where "fst (encode_files reader (evs @ [ReadFile f])
        (ps @ [InlineData (file_type f) d]) fs) = (evs @ [ReadFile f]) @ map ReadFile fs'"
      by blast
    with Inr show ?thesis by (intro exI [of _ "f # fs'"]) simp
  qed
qed

lemma encode_files_ok:
  "\<forall>f\<in>set fs. reader f \<noteq> None \<Longrightarrow>
   encode_files reader evs ps fs = (evs @ map ReadFile fs, Inr (ps @ map (attachment reader) fs))"
proof (induction fs arbitrary: evs ps)
  case Nil
  show ?case by simp
next
  case (Cons f fs)
  then obtain url where url: "reader f = Some url" by auto
  then obtain d where d: "fileToBase64 reader f = Inr d"
    by (simp add: fileToBase64_def Let_def)
  from Cons.prems have rest: "\<forall>f\<in>set fs. reader f \<noteq> None" by simp
  show ?case
    by (simp add: d Cons.IH [OF rest] attachment_def)
qed

lemma fetch_loop_requests:
  "\<exists>m. requests (fst (fetch_loop fetcher p evs resp n)) = requests evs @ replicate m p \<and>
       m \<le> MAX_RETRIES - n \<and> (n < MAX_RETRIES \<longrightarrow> 1 \<le> m)"
proof (induction fetcher p evs resp n rule: fetch_loop.induct)
  case (1 fetcher p evs resp retries)
  let ?evs = "evs @ [FetchCall p, Timeout (2 ^ (retries + 1) * 100)]"
  have more: "\<exists>m. requests (fst (fetch_loop fetcher p evs resp retries)) = requests evs @ replicate m p \<and>
       m \<le> MAX_RETRIES - retries \<and> (retries < MAX_RETRIES \<longrightarrow> 1 \<le> m)"
    if lt: "retries < MAX_RETRIES"
      and eq: "fetch_loop fetcher p evs resp retries = fetch_loop fetcher p ?evs resp' (retries + 1)"
      and ih: "\<exists>m. requests (fst (fetch_loop fetcher p ?evs resp' (retries + 1)))
          = requests ?evs @ replicate m p \<and> m \<le> MAX_RETRIES - (retries + 1) \<and>
            (retries + 1 < MAX_RETRIES \<longrightarrow> 1 \<le> m)"
    for resp'
  proof -
    from ih obtain m where m: "requests (fst (fetch_loop fetcher p ?evs resp' (retries + 1)))
          = requests ?evs @ replicate m p" and le: "m \<le> MAX_RETRIES - (retries + 1)"
      by blast
    have "requests ?evs @ replicate m p = requests evs @ replicate (Suc m) p"
      by (simp add: requests_append)
    with m le lt eq show ?thesis
      by (intro exI [of _ "Suc m"]) simp
  qed
  show ?case
  proof (cases "retries < MAX_RETRIES")
    case False
    then show ?thesis
      by (intro exI [of _ 0]) (simp add: fetch_loop.simps [of fetcher p evs resp retries])
  next
    case True
    show ?thesis
    proof (cases "fetcher retries")
      case NetworkError
      with True have "fetch_loop fetcher p evs resp retries = fetch_loop fetcher p ?evs resp (retries + 1)"
        by (simp add: fetch_loop.simps [of fetcher p evs resp retries])
      from more [OF True this 1(1) [OF True NetworkError]] show ?thesis .
    next
      case (Responded r)
      show ?thesis
      proof (cases "ok r")
        case True
        with \<open>retries < MAX_RETRIES\<close> Responded show ?thesis
          by (intro exI [of _ 1])
             (simp add: fetch_loop.simps [of fetcher p evs resp retries] requests_append)
      next
        case False
        with \<open>retries < MAX_RETRIES\<close> Responded
        have "fetch_loop fetcher p evs resp retries = fetch_loop fetcher p ?evs (Some r) (retries + 1)"
          by (simp add: fetch_loop.simps [of fetcher p evs resp retries])
        from more [OF \<open>retries < MAX_RETRIES\<close> this 1(2) [OF \<open>retries < MAX_RETRIES\<close> Responded False]]
        show ?thesis .
      qed
    qed
  qed
qed

lemma fetch_loop_io:
  "list_all is_io evs \<Longrightarrow> list_all is_io (fst (fetch_loop fetcher p evs resp n))"
proof (induction fetcher p evs resp n rule: fetch_loop.induct)
  case (1 fetcher p evs resp retries)
  show ?case
  proof (cases "retries < MAX_RETRIES")
    case False
    with 1(3) show ?thesis by (simp add: fetch_loop.simps [of fetcher p evs resp retries])
  next
    case True
    show ?thesis
    proof (cases "fetcher retries")
      case NetworkError
      with True 1(1) 1(3) show ?thesis
        by (simp add: fetch_loop.simps [of fetcher p evs resp retries])
    next
      case (Responded r)
      with True 1(2) 1(3) show ?thesis
        by (cases "ok r") (simp_all add: fetch_loop.simps [of fetcher p evs resp retries])
    qed
  qed
qed

lemma request_with_retries_fst:
  "fst (request_with_retries fetcher p) = fst (fetch_loop fetcher p [] None 0)"
proof -
  obtain evs resp where fl: "fetch_loop fetcher p [] None 0 = (evs, resp)"
    by (cases "fetch_loop fetcher p [] None 0")
  then show ?thesis
    by (cases resp) (simp_all add: request_with_retries_def)
qed

lemma request_with_retries_requests:
  "\<exists>m. 1 \<le> m \<and> m \<le> 5 \<and> requests (fst (request_with_retries fetcher p)) = replicate m p"
  using fetch_loop_requests [of fetcher p "[]" None 0]
  by (auto simp: request_with_retries_fst MAX_RETRIES_def)

lemma request_with_retries_io: "list_all is_io (fst (request_with_retries fetcher p))"
  using fetch_loop_io [of "[]" fetcher p None 0] by (simp add: request_with_retries_fst)

lemma onSubmit_finish: "onSubmit rt data = finish failure_message (generate rt data)"
  by (simp add: onSubmit_def finish_def)

lemma onSubmit_App_finish: "onSubmit_App rt data = finish failure_message_App (generate_App rt data)"
  by (simp add: onSubmit_App_def finish_def)

lemma take_finish: "take 5 (finish msg outcome) = resets"
  by (simp add: finish_def resets_def)

lemma requests_finish: "requests (finish msg outcome) = requests (fst outcome)"
  by (cases outcome; cases "snd outcome") (simp_all add: finish_def resets_def requests_append)

lemma run_finish_failure:
  "list_all is_io evs \<Longrightarrow>
   run s (finish msg (evs, Inl e)) =
     \<lparr>loading = False, questions = JNull, answers = Map.empty, results = None, error = Some msg\<rparr>"
  by (simp add: finish_def run_append run_resets run_io) (simp add: run_def)

lemma run_finish_success:
  "list_all is_io evs \<Longrightarrow>
   run s (finish msg (evs, Inr q)) =
     \<lparr>loading = False, questions = q, answers = Map.empty, results = None, error = None\<rparr>"
  by (simp add: finish_def run_append run_resets run_io) (simp add: run_def)

lemma encode_files_io: "list_all is_io (fst (encode_files reader [] ps fs))"
proof -
  from encode_files_events [of reader "[]" ps fs]
  obtain fs' where "fst (encode_files reader [] ps fs) = map ReadFile fs'" by auto
  then show ?thesis by (simp add: list_all_iff)
qed

lemma try_body_io:
  "list_all is_io
     (fst (case encode_files reader [] ps fs of
             (evs1, Inl e) \<Rightarrow> (evs1, Inl e)
           | (evs1, Inr ps') \<Rightarrow>
               (case request_with_retries fetcher (make_payload ps') of
                  (evs2, Inl e) \<Rightarrow> (evs1 @ evs2, Inl e)
                | (evs2, Inr r) \<Rightarrow> (evs1 @ evs2, decode_response parser r))))"
proof -
  obtain evs1 r1 where e: "encode_files reader [] ps fs = (evs1, r1)"
    by (cases "encode_files reader [] ps fs")
  with encode_files_io [of reader ps fs] have io1: "list_all is_io evs1" by simp
  show ?thesis
  proof (cases r1)
    case (Inl x)
    with e io1 show ?thesis by simp
  next
    case (Inr ps')
    obtain evs2 r2 where q: "request_with_retries fetcher (make_payload ps') = (evs2, r2)"
      by (cases "request_with_retries fetcher (make_payload ps')")
    with request_with_retries_io [of fetcher "make_payload ps'"] have "list_all is_io evs2" by simp
    with e Inr q io1 show ?thesis by (cases r2) simp_all
  qed
qed

lemma generate_io: "list_all is_io (fst (generate rt data))"
  unfolding generate_def Let_def
  by (simp add: try_body_io split: sum.split)

lemma generate_App_io: "list_all is_io (fst (generate_App rt data))"
  unfolding generate_App_def
  by (simp add: try_body_io)

lemma try_body_requests:
  assumes "\<forall>f\<in>set fs. reader f \<noteq> None"
  shows "\<exists>m. 1 \<le> m \<and> m \<le> 5 \<and>
     requests
       (fst (case encode_files reader [] ps fs of
               (evs1, Inl e) \<Rightarrow> (evs1, Inl e)
             | (evs1, Inr ps') \<Rightarrow>
                 (case request_with_retries fetcher (make_payload ps') of
                    (evs2, Inl e) \<Rightarrow> (evs1 @ evs2, Inl e)
                  | (evs2, Inr r) \<Rightarrow> (evs1 @ evs2, decode_response parser r))))
       = replicate m (make_payload (ps @ map (attachment reader) fs))"
proof -
  let ?p = "make_payload (ps @ map (attachment reader) fs)"
  obtain evs2 r2 where q: "request_with_retries fetcher ?p = (evs2, r2)"
    by (cases "request_with_retries fetcher ?p")
  from request_with_retries_requests [of fetcher ?p] q
  obtain m where m: "1 \<le> m" "m \<le> 5" "requests evs2 = replicate m ?p" by auto
  have "requests
       (fst (case encode_files reader [] ps fs of
               (evs1, Inl e) \<Rightarrow> (evs1, Inl e)
             | (evs1, Inr ps') \<Rightarrow>
                 (case request_with_retries fetcher (make_payload ps') of
                    (evs2, Inl e) \<Rightarrow> (evs1 @ evs2, Inl e)
                  | (evs2, Inr r) \<Rightarrow> (evs1 @ evs2, decode_response parser r)))) = requests evs2"
    by (cases r2) (simp_all add: encode_files_ok [OF assms] q requests_append)
  with m show ?thesis by auto
qed

lemma generate_count:
  assumes "files data \<noteq> []"
    and "to_string (if truthy (numQuestions data) then numQuestions data else JNum (num 10)) = Inr c"
  shows "generate rt data =
     (case encode_files (readAsDataURL rt) [] [TextPart (instruction_text c)] (files data) of
        (evs1, Inl e) \<Rightarrow> (evs1, Inl e)
      | (evs1, Inr ps) \<Rightarrow>
          (case request_with_retries (fetch rt) (make_payload ps) of
             (evs2, Inl e) \<Rightarrow> (evs1 @ evs2, Inl e)
           | (evs2, Inr r) \<Rightarrow> (evs1 @ evs2, decode_response (JSON_parse rt) r)))"
  unfolding generate_def Let_def assms(2) using assms(1) by simp

lemma generate_requests:
  assumes "files data \<noteq> []" and "\<forall>f\<in>set (files data). readAsDataURL rt f \<noteq> None"
    and "to_string (if truthy (numQuestions data) then numQuestions data else JNum (num 10)) = Inr c"
  shows "\<exists>m. 1 \<le> m \<and> m \<le> 5 \<and>
     requests (fst (generate rt data)) =
       replicate m
         (make_payload
            (TextPart (instruction_text c) # map (attachment (readAsDataURL rt)) (files data)))"
  unfolding generate_count [OF assms(1) assms(3)]
  using try_body_requests [OF assms(2), where ps = "[TextPart (instruction_text c)]"
          and fetcher = "fetch rt" and parser = "JSON_parse rt"]
  by simp


lemma show_nat_10: "show_nat 10 = ''10''"
  by (simp add: show_nat.simps digit_char_def)




lemma int_of_num: "\<bar>n\<bar> \<le> 9007199254740991 \<Longrightarrow> int_of (num n) = n"
  by (simp add: num_inverse)

lemma int_of_zero: "(int_of n = 0) = (n = num 0)"
  using int_of_inject [of n "num 0"] by (simp add: int_of_num)

lemma instruction_text_parts: "instruction_text c = prompt_before @ c @ prompt_after"
  by (simp add: instruction_text_def prompt_before_def prompt_after_def)

lemma settled_io:
  "list_all is_io evs \<Longrightarrow> settled s (evs @ rest) = replicate (length evs) s @ settled s rest"
  by (induction evs) simp_all

lemma settled_finish:
  "list_all is_io evs \<Longrightarrow>
   map loading (settled s (finish msg (evs, r))) = replicate (length evs) True @ [False]"
  by (cases r) (simp_all add: finish_def resets_def settled_io)

lemma generate_empty:
  "files data = [] \<Longrightarrow> generate rt data = ([], Inl (Error ''Please upload at least one file.''))"
  by (simp add: generate_def Let_def)

lemma generate_App_empty:
  "images data = [] \<Longrightarrow> generate_App rt data = ([], Inl (Error ''Please upload at least one image.''))"
  by (simp add: generate_App_def)

lemma run_onSubmit_failure:
  "snd (generate rt data) = Inl e \<Longrightarrow> run s (onSubmit rt data) = cleared False (Some failure_message)"
  using run_finish_failure [OF generate_io [of rt data], where s = s and msg = failure_message and e = e]
  by (cases "generate rt data") (simp add: onSubmit_finish cleared_def)

lemma run_onSubmit_App_failure:
  "snd (generate_App rt data) = Inl e \<Longrightarrow>
   run s (onSubmit_App rt data) = cleared False (Some failure_message_App)"
  using run_finish_failure [OF generate_App_io [of rt data], where s = s and msg = failure_message_App and e = e]
  by (cases "generate_App rt data") (simp add: onSubmit_App_finish cleared_def)

lemma sample_encoding:
  "encode_files data_url [] ps [sample_image, sample_pdf]
     = ([ReadFile sample_image, ReadFile sample_pdf], Inr (ps @ sample_attachments))"
  by (simp add: fileToBase64_def data_url_def sample_image_def sample_pdf_def
      sample_attachments_def)

lemma sample_request:
  "request_with_retries (fetch sample_runtime) p
     = ([FetchCall p], Inr \<lparr>ok = True, json = Some (envelope (JStr incomplete_text))\<rparr>)"
  by (simp add: request_with_retries_def fetch_loop.simps MAX_RETRIES_def sample_runtime_def)

lemma sample_generate:
  assumes "to_string (if truthy n then n else JNum (num 10)) = Inr c"
  shows "generate sample_runtime (sample_form n)
     = ([ReadFile sample_image, ReadFile sample_pdf,
         FetchCall (make_payload (TextPart (instruction_text c) # sample_attachments))],
        decode_response sample_JSON_parse
          \<lparr>ok = True, json = Some (envelope (JStr incomplete_text))\<rparr>)"
proof -
  have f: "files (sample_form n) \<noteq> []"
    by (simp add: sample_form_def)
  have c: "to_string (if truthy (numQuestions (sample_form n)) then numQuestions (sample_form n)
                      else JNum (num 10)) = Inr c"
    unfolding sample_form_def form_data.select_convs by (rule assms)
  have r: "readAsDataURL sample_runtime = data_url" "JSON_parse sample_runtime = sample_JSON_parse"
    "files (sample_form n) = [sample_image, sample_pdf]"
    by (simp_all add: sample_runtime_def sample_form_def)
  show ?thesis
    unfolding generate_count [OF f c] r sample_encoding sample_request by simp
qed

lemma sample_events:
  "generate sample_runtime (sample_form JUndefined)
     = ([ReadFile sample_image, ReadFile sample_pdf,
         FetchCall (make_payload (TextPart (instruction_text ''10'') # sample_attachments))],
        decode_response sample_JSON_parse
          \<lparr>ok = True, json = Some (envelope (JStr incomplete_text))\<rparr>)"
  by (rule sample_generate) (simp add: int_of_num show_nat_10)

text \<open>
  C5. A submission without files runs from the resets straight to the \<^verbatim>\<open>catch\<close>:
  no file is read, no request is sent and nothing is awaited, so the handler runs to its
  end in one piece. The only session it lets go of is the last one, with the error
  message and the loading flag cleared; the flag, which the first reset sets, is cleared
  again in the same run. The same in \<^verbatim>\<open>src/App.jsx\<close>.
\<close>

theorem empty_submission_fails_without_io:
  "(files data = [] \<longrightarrow>
      onSubmit rt data =
        resets @ [ConsoleError (Error ''Please upload at least one file.''),
                  SetError (Some failure_message), SetLoading False] \<and>
      filter is_io (onSubmit rt data) = [] \<and>
      run s (onSubmit rt data) = cleared False (Some failure_message) \<and>
      settled s (onSubmit rt data) = [cleared False (Some failure_message)])
   \<and> (images data' = [] \<longrightarrow>
      onSubmit_App rt data' =
        resets @ [ConsoleError (Error ''Please upload at least one image.''),
                  SetError (Some failure_message_App), SetLoading False] \<and>
      filter is_io (onSubmit_App rt data') = [] \<and>
      run s (onSubmit_App rt data') = cleared False (Some failure_message_App) \<and>
      settled s (onSubmit_App rt data') = [cleared False (Some failure_message_App)])"
proof (intro conjI impI)
  assume a: "files data = []"
  show e: "onSubmit rt data =
        resets @ [ConsoleError (Error ''Please upload at least one file.''),
                  SetError (Some failure_message), SetLoading False]"
    by (simp add: onSubmit_def generate_empty [OF a])
  then show "filter is_io (onSubmit rt data) = []"
    by (simp add: resets_def)
  show "run s (onSubmit rt data) = cleared False (Some failure_message)"
    by (rule run_onSubmit_failure) (simp add: generate_empty [OF a])
  show "settled s (onSubmit rt data) = [cleared False (Some failure_message)]"
    by (simp add: e resets_def cleared_def)
next
  assume a: "images data' = []"
  show e: "onSubmit_App rt data' =
        resets @ [ConsoleError (Error ''Please upload at least one image.''),
                  SetError (Some failure_message_App), SetLoading False]"
    by (simp add: onSubmit_App_def generate_App_empty [OF a])
  then show "filter is_io (onSubmit_App rt data') = []"
    by (simp add: resets_def)
  show "run s (onSubmit_App rt data') = cleared False (Some failure_message_App)"
    by (rule run_onSubmit_App_failure) (simp add: generate_App_empty [OF a])
  show "settled s (onSubmit_App rt data') = [cleared False (Some failure_message_App)]"
    by (simp add: e resets_def cleared_def)
qed

theorem empty_submission_fails_without_io_witness:
  "files empty_form = [] \<and> images empty_form_App = [] \<and>
   filter is_io (onSubmit sample_runtime empty_form) = [] \<and>
   run scored_quiz (onSubmit sample_runtime empty_form) = cleared False (Some failure_message) \<and>
   map loading (settled scored_quiz (onSubmit sample_runtime empty_form)) = [False] \<and>
   filter is_io (onSubmit_App sample_runtime empty_form_App) = [] \<and>
   run scored_quiz (onSubmit_App sample_runtime empty_form_App)
     = cleared False (Some failure_message_App) \<and>
   map loading (settled scored_quiz (onSubmit_App sample_runtime empty_form_App)) = [False] \<and>
   map loading (settled scored_quiz (onSubmit sample_runtime (sample_form JUndefined)))
     = [True, True, True, False]"
proof -
  have f: "files empty_form = []" by (simp add: empty_form_def)
  have g: "images empty_form_App = []" by (simp add: empty_form_App_def)
  have l: "loading (cleared False e) = False" for e by (simp add: cleared_def)
  have n: "map loading (settled scored_quiz (onSubmit sample_runtime (sample_form JUndefined)))
     = [True, True, True, False]"
    unfolding onSubmit_finish sample_events
    by (subst settled_finish) simp_all
  note t = empty_submission_fails_without_io
      [of empty_form sample_runtime scored_quiz empty_form_App]
  from t f have a: "filter is_io (onSubmit sample_runtime empty_form) = []"
    "run scored_quiz (onSubmit sample_runtime empty_form) = cleared False (Some failure_message)"
    "settled scored_quiz (onSubmit sample_runtime empty_form)
       = [cleared False (Some failure_message)]"
    by blast+
  from t g have b: "filter is_io (onSubmit_App sample_runtime empty_form_App) = []"
    "run scored_quiz (onSubmit_App sample_runtime empty_form_App)
       = cleared False (Some failure_message_App)"
    "settled scored_quiz (onSubmit_App sample_runtime empty_form_App)
       = [cleared False (Some failure_message_App)]"
    by blast+
  show ?thesis using f g a b l n by simp
qed

text \<open>
  C10. Whatever the session was, the first five events of a submission are the resets:
  none of them reads a file, sends a request or waits, and after them the questions,
  answers, results and error of the session before are gone. When the generation then
  fails, the session ends with the error message, no questions and no results.
\<close>

theorem submit_clears_previous_session:
  "take 5 (onSubmit rt data) = resets \<and> take 5 (onSubmit_App rt data') = resets \<and>
   filter is_io resets = [] \<and>
   run s resets = cleared True None \<and>
   (snd (generate rt data) = Inl e \<longrightarrow>
      run s (onSubmit rt data) = cleared False (Some failure_message)) \<and>
   (snd (generate_App rt data') = Inl e' \<longrightarrow>
      run s (onSubmit_App rt data') = cleared False (Some failure_message_App))"
  by (simp add: onSubmit_finish onSubmit_App_finish take_finish run_resets cleared_def
      run_onSubmit_failure [unfolded cleared_def onSubmit_finish]
      run_onSubmit_App_failure [unfolded cleared_def onSubmit_App_finish])
     (simp add: resets_def)

theorem submit_clears_previous_session_witness:
  "questions scored_quiz \<noteq> JNull \<and>
   results scored_quiz = Some \<lparr>score = 2, accuracy = Num (2345624805922133 / 35184372088832), totalQuestions = 3\<rparr> \<and>
   snd (generate down_runtime (sample_form JUndefined))
     = Inl (Error ''API call failed after multiple retries.'') \<and>
   run scored_quiz (onSubmit down_runtime (sample_form JUndefined))
     = cleared False (Some failure_message) \<and>
   snd (generate_App down_runtime sample_form_App)
     = Inl (Error ''API call failed after multiple retries.'') \<and>
   run scored_quiz (onSubmit_App down_runtime sample_form_App)
     = cleared False (Some failure_message_App)"
proof -
  have down: "request_with_retries always_down p
      = (backoff_events p 0 MAX_RETRIES, Inl (Error ''API call failed after multiple retries.''))" for p
    by (simp add: request_with_retries_def fetch_loop.simps MAX_RETRIES_def always_down_def
        bad_response_def backoff_events_def upt_conv_Cons)
  have enc: "encode_files data_url [] ps [sample_image, sample_pdf]
      = ([ReadFile sample_image, ReadFile sample_pdf], Inr (ps @ sample_attachments))" for ps
    by (simp add: fileToBase64_def data_url_def sample_image_def sample_pdf_def
        sample_attachments_def)
  have g: "snd (generate down_runtime (sample_form JUndefined))
      = Inl (Error ''API call failed after multiple retries.'')"
    by (simp add: generate_def sample_form_def down_runtime_def enc down del: encode_files.simps)
  have ga: "snd (generate_App down_runtime sample_form_App)
      = Inl (Error ''API call failed after multiple retries.'')"
    by (simp add: generate_App_def sample_form_App_def down_runtime_def enc down
        del: encode_files.simps)
  show ?thesis
    using submit_clears_previous_session
      [of down_runtime "sample_form JUndefined" sample_form_App scored_quiz
          "Error ''API call failed after multiple retries.''"
          "Error ''API call failed after multiple retries.''"] g ga
    by (simp add: scored_quiz_def sample_quiz_def initial_session_def)
qed


lemma requests_onSubmit: "requests (onSubmit rt data) = requests (fst (generate rt data))"
  by (simp add: onSubmit_finish requests_finish)


lemma sample_requests:
  "to_string (if truthy n then n else JNum (num 10)) = Inr c \<Longrightarrow>
   requests (onSubmit sample_runtime (sample_form n))
     = [make_payload (TextPart (instruction_text c) # sample_attachments)]"
  by (simp add: requests_onSubmit sample_generate)

lemma falsy_values:
  "(\<not> truthy v) = (v = JUndefined \<or> v = JNull \<or> v = JBool False \<or> v = JStr [] \<or> v = JNum (num 0))"
  by (cases v) (simp_all add: int_of_zero)

text \<open>
  C6 (as the code has it). The text part of each request is the template with a count
  in it. The count is 10 exactly when the submitted value is falsy, which
  \<^verbatim>\<open>undefined\<close>, \<^verbatim>\<open>null\<close>, \<^verbatim>\<open>false\<close>, the empty string and the number 0 are and
  nothing else is; every other value is embedded as the string it converts to: a
  negative number with its sign, and every non-empty string (the form field delivers
  strings, "0" and "-5" among them) as it is.
\<close>

theorem default_count_when_falsy:
  "(files data \<noteq> [] \<and> (\<forall>f\<in>set (files data). readAsDataURL rt f \<noteq> None) \<and>
    \<not> truthy (numQuestions data) \<longrightarrow>
      (\<exists>m. 1 \<le> m \<and> m \<le> 5 \<and>
         requests (onSubmit rt data) =
           replicate m
             (make_payload
                (TextPart (prompt_before @ ''10'' @ prompt_after)
                 # map (attachment (readAsDataURL rt)) (files data)))))
   \<and> (files data \<noteq> [] \<and> (\<forall>f\<in>set (files data). readAsDataURL rt f \<noteq> None) \<and>
      truthy (numQuestions data) \<and> to_string (numQuestions data) = Inr c \<longrightarrow>
      (\<exists>m. 1 \<le> m \<and> m \<le> 5 \<and>
         requests (onSubmit rt data) =
           replicate m
             (make_payload
                (TextPart (prompt_before @ c @ prompt_after)
                 # map (attachment (readAsDataURL rt)) (files data)))))
   \<and> ((\<not> truthy v) =
        (v = JUndefined \<or> v = JNull \<or> v = JBool False \<or> v = JStr [] \<or> v = JNum (num 0)))
   \<and> (int_of n < 0 \<longrightarrow>
        truthy (JNum n) \<and> to_string (JNum n) = Inr (''-'' @ show_nat (nat (- int_of n))))
   \<and> (t \<noteq> [] \<longrightarrow> truthy (JStr t) \<and> to_string (JStr t) = Inr t)"
proof (intro conjI impI)
  assume a: "files data \<noteq> [] \<and> (\<forall>f\<in>set (files data). readAsDataURL rt f \<noteq> None) \<and>
    \<not> truthy (numQuestions data)"
  then have "to_string (if truthy (numQuestions data) then numQuestions data else JNum (num 10))
      = Inr ''10''"
    by (simp add: int_of_num show_nat_10)
  with generate_requests [of data rt "''10''"] a
  show "\<exists>m. 1 \<le> m \<and> m \<le> 5 \<and>
         requests (onSubmit rt data) =
           replicate m
             (make_payload
                (TextPart (prompt_before @ ''10'' @ prompt_after)
                 # map (attachment (readAsDataURL rt)) (files data)))"
    by (simp add: requests_onSubmit instruction_text_parts)
next
  assume a: "files data \<noteq> [] \<and> (\<forall>f\<in>set (files data). readAsDataURL rt f \<noteq> None) \<and>
      truthy (numQuestions data) \<and> to_string (numQuestions data) = Inr c"
  then have "to_string (if truthy (numQuestions data) then numQuestions data else JNum (num 10))
      = Inr c"
    by simp
  with generate_requests [of data rt c] a
  show "\<exists>m. 1 \<le> m \<and> m \<le> 5 \<and>
         requests (onSubmit rt data) =
           replicate m
             (make_payload
                (TextPart (prompt_before @ c @ prompt_after)
                 # map (attachment (readAsDataURL rt)) (files data)))"
    by (simp add: requests_onSubmit instruction_text_parts)
next
  show "(\<not> truthy v) =
        (v = JUndefined \<or> v = JNull \<or> v = JBool False \<or> v = JStr [] \<or> v = JNum (num 0))"
    by (rule falsy_values)
qed simp_all

theorem default_count_when_falsy_witness:
  "files (sample_form JUndefined) = [sample_image, sample_pdf] \<and>
   readAsDataURL sample_runtime sample_image \<noteq> None \<and>
   readAsDataURL sample_runtime sample_pdf \<noteq> None \<and>
   \<not> truthy (numQuestions (sample_form JUndefined)) \<and>
   requests (onSubmit sample_runtime (sample_form JUndefined))
     = [make_payload
          [TextPart ''\<newline>          From the following files, generate 10 NEET-level multiple-choice questions.\<newline>          For each question, provide 4 options (A, B, C, D) and a single correct answer.\<newline>          Make sure there is exactly the amount of questions as specified above.\<newline>          Also, provide a detailed solution/explanation for the correct answer.\<newline>\<newline>          The questions must strictly adhere to the NEET syllabus (Physics, Chemistry, Biology).\<newline>          The questions should be challenging and cover key concepts from the provided content.\<newline>\<newline>          The response must be in a specific JSON format to be parsed correctly.\<newline>          Do not include any other text or markdown outside of the JSON.\<newline>          '',
           InlineData ''image/png'' (JStr ''iVBORw0KGgo=''),
           InlineData ''application/pdf'' (JStr ''JVBERi0xLjQ='')]] \<and>
   requests (onSubmit sample_runtime (sample_form (JStr [])))
     = requests (onSubmit sample_runtime (sample_form JUndefined)) \<and>
   requests (onSubmit sample_runtime (sample_form (JNum (num 0))))
     = requests (onSubmit sample_runtime (sample_form JUndefined)) \<and>
   requests (onSubmit sample_runtime (sample_form (JBool False)))
     = requests (onSubmit sample_runtime (sample_form JUndefined)) \<and>
   requests (onSubmit sample_runtime (sample_form (JStr ''7'')))
     = [make_payload
          [TextPart (prompt_before @ ''7'' @ prompt_after),
           InlineData ''image/png'' (JStr ''iVBORw0KGgo=''),
           InlineData ''application/pdf'' (JStr ''JVBERi0xLjQ='')]] \<and>
   prompt_before @ ''7'' @ prompt_after \<noteq> prompt_before @ ''10'' @ prompt_after \<and>
   truthy (JNum (num (- 5))) \<and> to_string (JNum (num (- 5))) = Inr ''-5'' \<and>
   truthy (JStr ''0'') \<and> to_string (JStr ''0'') = Inr ''0''"
proof -
  have f: "files (sample_form JUndefined) = [sample_image, sample_pdf]"
    "\<not> truthy (numQuestions (sample_form JUndefined))"
    by (simp_all add: sample_form_def)
  have r: "readAsDataURL sample_runtime sample_image \<noteq> None"
    "readAsDataURL sample_runtime sample_pdf \<noteq> None"
    by (simp_all add: sample_runtime_def data_url_def)
  have a: "map (attachment (readAsDataURL sample_runtime)) [sample_image, sample_pdf]
      = [InlineData ''image/png'' (JStr ''iVBORw0KGgo=''),
         InlineData ''application/pdf'' (JStr ''JVBERi0xLjQ='')]"
    by (simp add: attachment_def fileToBase64_def sample_runtime_def data_url_def
        sample_image_def sample_pdf_def)
  have t: "prompt_before @ ''10'' @ prompt_after
      = ''\<newline>          From the following files, generate 10 NEET-level multiple-choice questions.\<newline>          For each question, provide 4 options (A, B, C, D) and a single correct answer.\<newline>          Make sure there is exactly the amount of questions as specified above.\<newline>          Also, provide a detailed solution/explanation for the correct answer.\<newline>\<newline>          The questions must strictly adhere to the NEET syllabus (Physics, Chemistry, Biology).\<newline>          The questions should be challenging and cover key concepts from the provided content.\<newline>\<newline>          The response must be in a specific JSON format to be parsed correctly.\<newline>          Do not include any other text or markdown outside of the JSON.\<newline>          ''"
    by (simp add: prompt_before_def prompt_after_def)
  have q: "requests (onSubmit sample_runtime (sample_form v))
       = [make_payload (TextPart (prompt_before @ ''10'' @ prompt_after) # sample_attachments)]"
    if "\<not> truthy v" for v
    using that
    by (simp add: sample_requests [of v "''10''"] int_of_num show_nat_10 instruction_text_parts)
  have q7: "requests (onSubmit sample_runtime (sample_form (JStr ''7'')))
       = [make_payload (TextPart (prompt_before @ ''7'' @ prompt_after) # sample_attachments)]"
    by (simp add: sample_requests [of "JStr ''7''" "''7''"] instruction_text_parts)
  have d: "prompt_before @ ''7'' @ prompt_after \<noteq> prompt_before @ ''10'' @ prompt_after"
    by simp
  have m: "int_of (num (- 5)) = - 5"
    by (simp add: int_of_num)
  have s5: "show_nat 5 = ''5''"
    by (simp add: show_nat.simps digit_char_def)
  from default_count_when_falsy [of "sample_form JUndefined" sample_runtime "''7''" JUndefined
      "num (- 5)" "''0''"] f r
  obtain k where k: "requests (onSubmit sample_runtime (sample_form JUndefined)) =
           replicate k
             (make_payload
                (TextPart (prompt_before @ ''10'' @ prompt_after)
                 # map (attachment (readAsDataURL sample_runtime))
                     (files (sample_form JUndefined))))"
    and n: "truthy (JNum (num (- 5)))"
      "to_string (JNum (num (- 5))) = Inr (''-'' @ show_nat (nat (- int_of (num (- 5)))))"
    by (auto simp: m)
  have und: "requests (onSubmit sample_runtime (sample_form JUndefined))
     = [make_payload
          [TextPart (prompt_before @ ''10'' @ prompt_after),
           InlineData ''image/png'' (JStr ''iVBORw0KGgo=''),
           InlineData ''application/pdf'' (JStr ''JVBERi0xLjQ='')]]"
    using q [of JUndefined] by (simp add: sample_attachments_def)
  have same: "requests (onSubmit sample_runtime (sample_form (JStr [])))
       = requests (onSubmit sample_runtime (sample_form JUndefined))"
    "requests (onSubmit sample_runtime (sample_form (JNum (num 0))))
       = requests (onSubmit sample_runtime (sample_form JUndefined))"
    "requests (onSubmit sample_runtime (sample_form (JBool False)))
       = requests (onSubmit sample_runtime (sample_form JUndefined))"
    by (simp_all add: q int_of_num)
  have seven: "requests (onSubmit sample_runtime (sample_form (JStr ''7'')))
     = [make_payload
          [TextPart (prompt_before @ ''7'' @ prompt_after),
           InlineData ''image/png'' (JStr ''iVBORw0KGgo=''),
           InlineData ''application/pdf'' (JStr ''JVBERi0xLjQ='')]]"
    using q7 by (simp add: sample_attachments_def)
  have five: "to_string (JNum (num (- 5))) = Inr ''-5''"
    using n(2) by (simp add: m s5)
  show ?thesis
    using f r und [unfolded t] same seven d n(1) five by simp
qed

text \<open>
  C6 as stated fails: a count of \<open>-5\<close>, given as a number or as the string the form
  field delivers, and a count given as the string "0" are sent as they are, not
  replaced by 10.
\<close>

theorem negative_count_is_sent:
  "requests (onSubmit sample_runtime (sample_form (JNum (num (- 5)))))
     = [make_payload (TextPart (instruction_text ''-5'') # sample_attachments)] \<and>
   requests (onSubmit sample_runtime (sample_form (JStr ''-5'')))
     = [make_payload (TextPart (instruction_text ''-5'') # sample_attachments)] \<and>
   requests (onSubmit sample_runtime (sample_form (JStr ''0'')))
     = [make_payload (TextPart (instruction_text ''0'') # sample_attachments)] \<and>
   instruction_text ''-5'' \<noteq> instruction_text ''10'' \<and>
   instruction_text ''0'' \<noteq> instruction_text ''10''"
proof -
  have m: "int_of (num (- 5)) = - 5"
    by (simp add: int_of_num)
  have s5: "show_nat 5 = ''5''"
    by (simp add: show_nat.simps digit_char_def)
  have a: "requests (onSubmit sample_runtime (sample_form (JNum (num (- 5)))))
     = [make_payload (TextPart (instruction_text ''-5'') # sample_attachments)]"
    by (rule sample_requests) (simp add: m s5)
  have b: "requests (onSubmit sample_runtime (sample_form (JStr ''-5'')))
     = [make_payload (TextPart (instruction_text ''-5'') # sample_attachments)]"
    by (rule sample_requests) simp
  have c: "requests (onSubmit sample_runtime (sample_form (JStr ''0'')))
     = [make_payload (TextPart (instruction_text ''0'') # sample_attachments)]"
    by (rule sample_requests) simp
  from a b c show ?thesis by (simp add: instruction_text_def)
qed




subsection \<open>Exporting\<close>

lemma to_string_text: "is_string v \<Longrightarrow> to_string v = Inr (text_of v)"
  by (cases v) (simp_all add: is_string_def text_of_def)

lemma letter_of_option: "j < 26 \<Longrightarrow> fromCharCode (65 + j) = [capital_letters ! j]"
proof -
  assume "j < 26"
  then have "j = 0 \<or> j = 1 \<or> j = 2 \<or> j = 3 \<or> j = 4 \<or> j = 5 \<or> j = 6 \<or> j = 7 \<or> j = 8
      \<or> j = 9 \<or> j = 10 \<or> j = 11 \<or> j = 12 \<or> j = 13 \<or> j = 14 \<or> j = 15 \<or> j = 16 \<or> j = 17
      \<or> j = 18 \<or> j = 19 \<or> j = 20 \<or> j = 21 \<or> j = 22 \<or> j = 23 \<or> j = 24 \<or> j = 25"
    by arith
  then show ?thesis
    by (elim disjE)
       (simp_all add: fromCharCode_def utf8_def Let_def capital_letters_def char_of_eq_iff)
qed

lemma export_options_lines:
  "list_all is_string os \<Longrightarrow> k + length os \<le> 26 \<Longrightarrow>
   export_options acc k os =
     Inr (acc @ concat (map (\<lambda>j. option_line (k + j) (text_of (os ! j))) [0..<length os]))"
proof (induction os arbitrary: acc k)
  case Nil
  show ?case by simp
next
  case (Cons opt rest)
  then have s: "is_string opt" and rest: "list_all is_string rest"
    and k: "k < 26" and le: "(k + 1) + length rest \<le> 26"
    by simp_all
  have upt: "[0..<length (opt # rest)] = 0 # map Suc [0..<length rest]"
    by (simp add: upt_conv_Cons map_Suc_upt del: upt_Suc)
  have "export_options acc k (opt # rest)
      = export_options (acc @ option_line k (text_of opt)) (k + 1) rest"
    by (simp add: to_string_text [OF s] option_line_def letter_of_option [OF k])
  also have "\<dots> = Inr ((acc @ option_line k (text_of opt))
      @ concat (map (\<lambda>j. option_line (k + 1 + j) (text_of (rest ! j))) [0..<length rest]))"
    by (rule Cons.IH [OF rest le])
  also have "\<dots> = Inr (acc @ concat (map (\<lambda>j. option_line (k + j) (text_of ((opt # rest) ! j)))
      [0..<length (opt # rest)]))"
    by (subst upt) (simp add: comp_def)
  finally show ?case .
qed

lemma export_txt_blocks:
  "list_all typed_question qs \<Longrightarrow>
   export_txt acc k qs =
     Inr (acc @ concat (map (\<lambda>i. question_block (k + i) (qs ! i)) [0..<length qs]))"
proof (induction qs arbitrary: acc k)
  case Nil
  show ?case by simp
next
  case (Cons q rest)
  then have pq: "typed_question q" and rest: "list_all typed_question rest"
    by simp_all
  from pq have q: "readable q"
    and t: "is_string (field q ''questionText'')" "is_string (field q ''correctAnswer'')"
      "is_string (field q ''solution'')"
    by (simp_all add: typed_question_def typed_fields_def)
  from pq obtain os where os: "field q ''options'' = JArr os"
    and str: "list_all is_string os" and le: "0 + length os \<le> 26"
    by (auto simp: typed_question_def split: jsval.splits)
  have upt: "[0..<length (q # rest)] = 0 # map Suc [0..<length rest]"
    by (simp add: upt_conv_Cons map_Suc_upt del: upt_Suc)
  have "export_txt acc k (q # rest) = export_txt (acc @ question_block k q) (k + 1) rest"
    by (simp add: get_prop_readable [OF q] os to_string_text [OF t(1)] to_string_text [OF t(2)]
        to_string_text [OF t(3)] export_options_lines [OF str le] question_block_def
        options_of_def)
  also have "\<dots> = Inr ((acc @ question_block k q)
      @ concat (map (\<lambda>i. question_block (k + 1 + i) (rest ! i)) [0..<length rest]))"
    by (rule Cons.IH [OF rest])
  also have "\<dots> = Inr (acc @ concat (map (\<lambda>i. question_block (k + i) ((q # rest) ! i))
      [0..<length (q # rest)]))"
    by (subst upt) (simp add: comp_def)
  finally show ?case .
qed

lemma export_lines_App_lines:
  "list_all typed_fields qs \<Longrightarrow> export_lines_App qs = Inr (map question_line_App qs)"
proof (induction qs)
  case Nil
  show ?case by simp
next
  case (Cons q rest)
  then have pq: "typed_fields q" and rest: "list_all typed_fields rest" by simp_all
  from pq have q: "readable q"
    and t: "is_string (field q ''questionText'')" "is_string (field q ''correctAnswer'')"
      "is_string (field q ''solution'')"
    by (simp_all add: typed_fields_def)
  show ?case
    by (simp add: get_prop_readable [OF q] to_string_text [OF t(1)] to_string_text [OF t(2)]
        to_string_text [OF t(3)] Cons.IH [OF rest] question_line_App_def)
qed

text \<open>
  C8 (as the code has it). Take an array of question records whose text, correct
  answer and solution are strings and whose options are at most 26 strings. The text
  export of the current revision (any format but "csv") is the blocks of the questions
  one after the other; each block has the question's number counted from 1, its text,
  one line per option with its capital letter, the correct answer and the solution, and
  ends with an empty line. The export of \<^verbatim>\<open>src/App.jsx\<close> has one line per question,
  text, correct answer and solution with colons between them, and an empty line between
  two questions.
\<close>

theorem text_export_format:
  "(fmt \<noteq> ''csv'' \<and> list_all typed_question qs \<longrightarrow>
      handleExport fmt (JArr qs) =
        Inr (Some (text_file
          (concat (map (\<lambda>i. question_block i (qs ! i)) [0..<length qs])))))
   \<and> (j < 26 \<longrightarrow> fromCharCode (65 + j) = [capital_letters ! j])
   \<and> (list_all typed_fields qs \<longrightarrow>
        handleExport_App (JArr qs) =
          Inr (Some (text_file (join_with ''\<newline>\<newline>'' (map question_line_App qs)))))"
proof (intro conjI impI)
  assume a: "fmt \<noteq> ''csv'' \<and> list_all typed_question qs"
  then have "export_txt [] 0 qs
      = Inr ([] @ concat (map (\<lambda>i. question_block (0 + i) (qs ! i)) [0..<length qs]))"
    by (intro export_txt_blocks) simp
  with a show "handleExport fmt (JArr qs) =
        Inr (Some (text_file
          (concat (map (\<lambda>i. question_block i (qs ! i)) [0..<length qs]))))"
    by (simp add: handleExport_def text_file_def)
next
  assume "j < 26"
  then show "fromCharCode (65 + j) = [capital_letters ! j]"
    by (rule letter_of_option)
next
  assume "list_all typed_fields qs"
  then show "handleExport_App (JArr qs) =
          Inr (Some (text_file (join_with ''\<newline>\<newline>'' (map question_line_App qs))))"
    by (simp add: handleExport_App_def export_lines_App_lines text_file_def)
qed

theorem text_export_format_witness:
  "list_all typed_question two_questions \<and> list_all typed_fields two_questions \<and>
   handleExport ''txt'' (JArr two_questions) =
     Inr (Some (text_file
       (''Question 1: Q1\<newline>  A. a\<newline>  B. b\<newline>  C. c\<newline>  D. d\<newline>Correct Answer: A\<newline>Solution: S\<newline>\<newline>''
        @ ''Question 2: Q2\<newline>  A. a\<newline>  B. b\<newline>  C. c\<newline>  D. d\<newline>Correct Answer: B\<newline>Solution: S\<newline>\<newline>''))) \<and>
   fromCharCode (65 + 2) = ''C'' \<and>
   handleExport_App (JArr two_questions) = Inr (Some (text_file ''Q1:A:S\<newline>\<newline>Q2:B:S''))"
proof -
  have p: "list_all typed_question two_questions" and r: "list_all typed_fields two_questions"
    by (simp_all add: two_questions_def sample_question_def typed_question_def typed_fields_def
        readable_def field_def is_string_def)
  have b: "concat (map (\<lambda>i. question_block i (two_questions ! i)) [0..<length two_questions])
      = ''Question 1: Q1\<newline>  A. a\<newline>  B. b\<newline>  C. c\<newline>  D. d\<newline>Correct Answer: A\<newline>Solution: S\<newline>\<newline>''
        @ ''Question 2: Q2\<newline>  A. a\<newline>  B. b\<newline>  C. c\<newline>  D. d\<newline>Correct Answer: B\<newline>Solution: S\<newline>\<newline>''"
    by (simp add: two_questions_def sample_question_def question_block_def options_of_def
        field_def option_line_def text_of_def capital_letters_def show_nat.simps digit_char_def
        upt_conv_Cons)
  have l: "join_with ''\<newline>\<newline>'' (map question_line_App two_questions) = ''Q1:A:S\<newline>\<newline>Q2:B:S''"
    by (simp add: two_questions_def sample_question_def question_line_App_def field_def
        text_of_def)
  have c: "capital_letters ! 2 = CHR ''C''"
    by (simp add: capital_letters_def)
  from text_export_format [of "''txt''" two_questions 2] p r
  show ?thesis
    by (simp add: b l c)
qed

text \<open>
  C8 as stated fails in \<^verbatim>\<open>src/App.jsx\<close>: two questions as it exports them, without
  numbers and without options.
\<close>

theorem export_of_App_has_no_options:
  "handleExport_App (JArr two_questions) = Inr (Some (text_file ''Q1:A:S\<newline>\<newline>Q2:B:S'')) \<and>
   handleExport_App (JArr two_questions) \<noteq> handleExport ''txt'' (JArr two_questions)"
  by (simp add: handleExport_App_def handleExport_def two_questions_def sample_question_def
      text_file_def)

end
